theory Spec2Isabelle
  imports Main
begin

section \<open>Strings\<close>

text \<open>
  Go strings are byte sequences, read as UTF-8; they are modelled as \<open>string\<close> (a list
  of 8-bit characters). The helpers below stand for the standard-library functions that
  the updater and the selector library call: \<^verbatim>\<open>strings.TrimSpace\<close>, \<^verbatim>\<open>strings.Contains\<close>
  and \<^verbatim>\<open>strings.ToLower\<close>.

  The white-space runes of \<^verbatim>\<open>unicode.IsSpace\<close>, in their UTF-8 encoding: TAB, LF, VT, FF,
  CR, SPACE, U+0085, U+00A0, U+1680, U+2000 to U+200A, U+2028, U+2029, U+202F, U+205F and
  U+3000.
\<close>

definition spaceRunes :: "string list" where
  "spaceRunes =
     [[CHR 0x09], [CHR 0x0A], [CHR 0x0B], [CHR 0x0C], [CHR 0x0D], [CHR 0x20],
      [CHR 0xC2, CHR 0x85], [CHR 0xC2, CHR 0xA0],
      [CHR 0xE1, CHR 0x9A, CHR 0x80]]
     @ map (\<lambda>b. [CHR 0xE2, CHR 0x80, b])
         [CHR 0x80, CHR 0x81, CHR 0x82, CHR 0x83, CHR 0x84, CHR 0x85, CHR 0x86, CHR 0x87,
          CHR 0x88, CHR 0x89, CHR 0x8A, CHR 0xA8, CHR 0xA9, CHR 0xAF]
     @ [[CHR 0xE2, CHR 0x81, CHR 0x9F], [CHR 0xE3, CHR 0x80, CHR 0x80]]"

text \<open>
  The number of bytes of the rune at the front of a string when that rune is one of the
  given encodings, and 0 otherwise (any other rune, or bytes that are not UTF-8).
\<close>

definition spaceWidth :: "string list \<Rightarrow> string \<Rightarrow> nat" where
  "spaceWidth encs s =
     (case filter (\<lambda>e. take (length e) s = e) encs of [] \<Rightarrow> 0 | e # es \<Rightarrow> length e)"

function stripSpace :: "string list \<Rightarrow> string \<Rightarrow> string" where
  "stripSpace encs s =
     (if s = [] \<or> spaceWidth encs s = 0 then s
      else stripSpace encs (drop (spaceWidth encs s) s))"
  by pat_completeness auto
termination
  by (relation "measure (\<lambda>(encs, s). length s)") auto

text \<open>
  \<^verbatim>\<open>TrimSpace\<close>: the white-space runes at the front are taken off, decoding forwards, then
  those at the back, decoding backwards (a string ends with a rune exactly when it ends
  with the rune's encoding).
\<close>

definition TrimSpace :: "string \<Rightarrow> string" where
  "TrimSpace s = rev (stripSpace (map rev spaceRunes) (rev (stripSpace spaceRunes s)))"

definition toLowerChar :: "char \<Rightarrow> char" where
  "toLowerChar c =
     (let k = (of_char c :: nat) in if 65 \<le> k \<and> k \<le> 90 then char_of (k + 32) else c)"

text \<open>The selector library puts the key of an attribute selector in lower case, ASCII only.\<close>

definition toLowerASCII :: "string \<Rightarrow> string" where
  "toLowerASCII s = map toLowerChar s"

text \<open>
  \<^verbatim>\<open>ToLower\<close>: the ASCII capitals are put in lower case, and so are the two runes outside
  ASCII whose lower case is an ASCII letter, U+212A (to k) and U+0130 (to i). Every other
  rune outside ASCII has its lower case outside ASCII; its bytes are kept as they are,
  which makes no difference to a search for an ASCII text, the only use of the result.
\<close>

fun ToLower :: "string \<Rightarrow> string" where
  "ToLower (a # b # c # cs) =
     (if [a, b, c] = [CHR 0xE2, CHR 0x84, CHR 0xAA] then CHR ''k'' # ToLower cs
      else if [a, b] = [CHR 0xC4, CHR 0xB0] then CHR ''i'' # ToLower (c # cs)
      else toLowerChar a # ToLower (b # c # cs))"
| "ToLower [a, b] =
     (if [a, b] = [CHR 0xC4, CHR 0xB0] then [CHR ''i''] else toLowerChar a # ToLower [b])"
| "ToLower [a] = [toLowerChar a]"
| "ToLower [] = []"

primrec Contains :: "string \<Rightarrow> string \<Rightarrow> bool" where
  "Contains [] sub = (sub = [])"
| "Contains (c # cs) sub = (take (length sub) (c # cs) = sub \<or> Contains cs sub)"

section \<open>Parsed documents and selections\<close>

text \<open>
  The updater receives a parsed document from the goquery library and queries it with CSS
  selectors. The library is not part of the repository; the part of it that the updater
  uses is modelled here: a document tree, the selectors that occur in the source as an
  abstract syntax, and the operations \<^verbatim>\<open>Find\<close>, \<^verbatim>\<open>Text\<close>, \<^verbatim>\<open>Eq\<close>, \<^verbatim>\<open>Length\<close>, \<^verbatim>\<open>Each\<close>
  and \<^verbatim>\<open>AttrOr\<close>.

  A node is an element (tag, attributes, children) or a text node. The root node of a
  document stands for the document node: \<^verbatim>\<open>Find\<close> looks at its descendants only.
\<close>

datatype node = Element string "(string \<times> string) list" "node list" | TextNode string

text \<open>The text of a node: its own text, or the texts of all its descendants in order.\<close>

fun nodeText :: "node \<Rightarrow> string" where
  "nodeText (TextNode s) = s"
| "nodeText (Element t as cs) = concat (map nodeText cs)"

text \<open>
  A node of a document is identified by its path from the root (child indices), so that a
  selection, a list of paths, can hold each node once, as the library's selections do.
\<close>

type_synonym path = "nat list"

fun node_at :: "node \<Rightarrow> path \<Rightarrow> node option" where
  "node_at n [] = Some n"
| "node_at (TextNode s) (i # p) = None"
| "node_at (Element t as cs) (i # p) = (if i < length cs then node_at (cs ! i) p else None)"

text \<open>The ancestors of the node at a path, nearest first, up to and including the start node.\<close>

fun chain :: "node \<Rightarrow> path \<Rightarrow> node list" where
  "chain n [] = []"
| "chain (TextNode s) (i # p) = []"
| "chain (Element t as cs) (i # p) =
     (if i < length cs then chain (cs ! i) p @ [Element t as cs] else [])"

text \<open>The paths of all proper descendants of a node, in document order (pre-order).\<close>

fun paths :: "node \<Rightarrow> path list" and paths_from :: "nat \<Rightarrow> node list \<Rightarrow> path list" where
  "paths (TextNode s) = []"
| "paths (Element t as cs) = paths_from 0 cs"
| "paths_from i [] = []"
| "paths_from i (c # cs) = [i] # map ((#) i) (paths c) @ paths_from (Suc i) cs"

text \<open>
  The selectors of the source, as syntax: \<^verbatim>\<open>tag\<close>, \<^verbatim>\<open>.class\<close>, \<^verbatim>\<open>#id\<close>, \<^verbatim>\<open>[key='value']\<close>,
  \<^verbatim>\<open>:contains('text')\<close>, \<^verbatim>\<open>:has(selector)\<close>, a compound of two selectors on one element,
  and the descendant combinator \<^verbatim>\<open>A B\<close>.
\<close>

datatype sel =
    Tag string
  | Class string
  | Id string
  | AttrEq string string
  | ContainsText string
  | Has sel
  | Both sel sel
  | Within sel sel

text \<open>A class attribute includes a word when one of its white-space separated words is it.\<close>

function includesWord :: "string \<Rightarrow> string \<Rightarrow> bool" where
  "includesWord s val =
     (if s = [] then False
      else let sep = (\<lambda>c. c \<in> {CHR '' '', CHR 0x09, CHR 0x0D, CHR 0x0A, CHR 0x0C});
               w = takeWhile (\<lambda>c. \<not> sep c) s;
               r = dropWhile (\<lambda>c. \<not> sep c) s
           in if r = [] then w = val
              else if w = val then True
              else includesWord (tl r) val)"
  by pat_completeness auto
termination
proof (relation "measure (\<lambda>(s, val). length s)")
  show "wf (measure (\<lambda>(s, val). length s))" by simp
next
  fix s val :: string and sep :: "char \<Rightarrow> bool" and w r :: string
  assume "s \<noteq> []" and r: "r = dropWhile (\<lambda>c. \<not> sep c) s" and "r \<noteq> []"
  have "length (tl r) < length r" using \<open>r \<noteq> []\<close> by (cases r) auto
  moreover have "length r \<le> length s" unfolding r by (rule length_dropWhile_le)
  ultimately show "((tl r, val), (s, val)) \<in> measure (\<lambda>(s, val). length s)" by simp
qed

definition hasAttr :: "node \<Rightarrow> string \<Rightarrow> (string \<Rightarrow> bool) \<Rightarrow> bool" where
  "hasAttr n key f =
     (case n of
        Element t as cs \<Rightarrow> list_ex (\<lambda>kv. fst kv = key \<and> f (snd kv)) as
      | TextNode s \<Rightarrow> False)"

text \<open>
  \<open>matches s anc n\<close>: node \<open>n\<close>, whose ancestors are \<open>anc\<close> (nearest first), matches \<open>s\<close>.
  \<^verbatim>\<open>:contains\<close> compares in lower case, and the key of an attribute selector is put in
  lower case (the parser of the markup gives attribute names in lower case), as the
  selector library does.
\<close>

primrec matches :: "sel \<Rightarrow> node list \<Rightarrow> node \<Rightarrow> bool" where
  "matches (Tag t) anc n = (case n of Element t' as cs \<Rightarrow> t' = t | TextNode s \<Rightarrow> False)"
| "matches (Class c) anc n = hasAttr n ''class'' (\<lambda>v. includesWord v c)"
| "matches (Id i) anc n = hasAttr n ''id'' (\<lambda>v. v = i)"
| "matches (AttrEq k v) anc n = hasAttr n (toLowerASCII k) (\<lambda>v'. v' = v)"
| "matches (ContainsText s) anc n = Contains (ToLower (nodeText n)) (ToLower s)"
| "matches (Has s) anc n =
     list_ex (\<lambda>q. case node_at n q of
                     Some d \<Rightarrow> matches s (chain n q @ anc) d
                   | None \<Rightarrow> False) (paths n)"
| "matches (Both a b) anc n = (matches a anc n \<and> matches b anc n)"
| "matches (Within a b) anc n =
     (matches b anc n \<and>
      list_ex (\<lambda>i. matches a (drop (Suc i) anc) (anc ! i)) [0..<length anc])"

definition matchesAt :: "node \<Rightarrow> sel \<Rightarrow> path \<Rightarrow> bool" where
  "matchesAt doc s p =
     (case node_at doc p of Some n \<Rightarrow> matches s (chain doc p) n | None \<Rightarrow> False)"

text \<open>Appending without duplicates: the first occurrence of a node is kept.\<close>

fun appendNew :: "'a list \<Rightarrow> 'a list \<Rightarrow> 'a list" where
  "appendNew acc [] = acc"
| "appendNew acc (x # xs) = appendNew (if x \<in> set acc then acc else acc @ [x]) xs"

type_synonym selection = "path list"

text \<open>\<^verbatim>\<open>Find\<close>: the descendants of each selected node that match, each node once.\<close>

definition Find :: "node \<Rightarrow> selection \<Rightarrow> sel \<Rightarrow> selection" where
  "Find doc sn s =
     foldl appendNew []
       (map (\<lambda>p. case node_at doc p of
                   Some n \<Rightarrow> filter (matchesAt doc s) (map ((@) p) (paths n))
                 | None \<Rightarrow> []) sn)"

definition docFind :: "node \<Rightarrow> sel \<Rightarrow> selection" where
  "docFind doc s = Find doc [[]] s"

text \<open>\<^verbatim>\<open>Text\<close>: the combined text of the selected nodes.\<close>

definition Text :: "node \<Rightarrow> selection \<Rightarrow> string" where
  "Text doc sn =
     concat (map (\<lambda>p. case node_at doc p of Some n \<Rightarrow> nodeText n | None \<Rightarrow> []) sn)"

text \<open>\<^verbatim>\<open>Eq(i)\<close> for a non-negative index: the selection of the i-th node, or the empty one.\<close>

definition Eq :: "selection \<Rightarrow> nat \<Rightarrow> selection" where
  "Eq sn i = (if i < length sn then [sn ! i] else [])"

text \<open>\<^verbatim>\<open>AttrOr\<close>: the named attribute of the first selected node, or the default.\<close>

definition AttrOr :: "node \<Rightarrow> selection \<Rightarrow> string \<Rightarrow> string \<Rightarrow> string" where
  "AttrOr doc sn key dflt =
     (case sn of
        [] \<Rightarrow> dflt
      | p # ps \<Rightarrow>
          (case node_at doc p of
             Some (Element t as cs) \<Rightarrow>
               (case filter (\<lambda>kv. fst kv = key) as of [] \<Rightarrow> dflt | kv # r \<Rightarrow> snd kv)
           | Some (TextNode s) \<Rightarrow> dflt
           | None \<Rightarrow> dflt))"

section \<open>Records of the models package\<close>

text \<open>
  A Go slice is \<open>None\<close> when it is \<^verbatim>\<open>nil\<close> and \<open>Some xs\<close> otherwise: the two are
  serialized differently.
\<close>

type_synonym 'a slice = "'a list option"

definition len :: "'a slice \<Rightarrow> nat" where
  "len s = (case s of None \<Rightarrow> 0 | Some xs \<Rightarrow> length xs)"

definition append :: "'a slice \<Rightarrow> 'a \<Rightarrow> 'a slice" where
  "append s x = (case s of None \<Rightarrow> Some [x] | Some xs \<Rightarrow> Some (xs @ [x]))"

record Holding =
  hName :: string
  hSharesHeld :: string
  hWeight :: string

record WeightData =
  wName :: string
  wWeight :: string

record ETFData =
  Name :: string
  Description :: string
  TopHoldings :: "Holding slice"
  Countries :: "WeightData slice"
  Sectors :: "WeightData slice"

record CountryWeight =
  cwNameValue :: string
  cwWeightValue :: string
  cwWeightOriginalValue :: string

record GeographicalData =
  AttributeArray :: "CountryWeight slice"

text \<open>
  The serialized payload is kept as a JSON value (the byte encoding of a value is the
  JSON library's). \<^verbatim>\<open>ToJson\<close> follows the struct tags of \<^verbatim>\<open>ETFData\<close>: the fields in
  declaration order, a nil slice as \<^verbatim>\<open>null\<close>, and \<^verbatim>\<open>sectors\<close> left out when the slice has
  length 0 (\<^verbatim>\<open>omitempty\<close>).
\<close>

datatype json = JNull | JString string | JArray "json list" | JObject "(string \<times> json) list"

definition encHolding :: "Holding \<Rightarrow> json" where
  "encHolding h =
     JObject [(''name'', JString (hName h)), (''shares_held'', JString (hSharesHeld h)),
              (''weight'', JString (hWeight h))]"

definition encWeightData :: "WeightData \<Rightarrow> json" where
  "encWeightData w = JObject [(''name'', JString (wName w)), (''weight'', JString (wWeight w))]"

definition encSlice :: "('a \<Rightarrow> json) \<Rightarrow> 'a slice \<Rightarrow> json" where
  "encSlice f s = (case s of None \<Rightarrow> JNull | Some xs \<Rightarrow> JArray (map f xs))"

definition ToJsonFields :: "ETFData \<Rightarrow> (string \<times> json) list" where
  "ToJsonFields m =
     [(''name'', JString (Name m)),
      (''description'', JString (Description m)),
      (''top_holdings'', encSlice encHolding (TopHoldings m)),
      (''countries'', encSlice encWeightData (Countries m))]
     @ (if len (Sectors m) = 0 then [] else [(''sectors'', encSlice encWeightData (Sectors m))])"

definition ToJson :: "ETFData \<Rightarrow> json" where
  "ToJson m = JObject (ToJsonFields m)"

record ETF =
  ID :: string
  Data :: json

section \<open>The field extractor\<close>

datatype error =
    ErrNotFound
  | NotFoundName
  | DescriptionFoundName
  | FindHoldingsReturns error
  | FindSectorsReturns error
  | FindCountriesReturns error
  | FailedToGetDataPaths error
  | External string

definition tableSelector :: sel where
  "tableSelector = Both (Tag ''table'') (Class ''data-table'')"

definition labelCellSelector :: sel where
  "labelCellSelector = Both (Tag ''td'') (Class ''label'')"

definition dataCellSelector :: sel where
  "dataCellSelector = Both (Tag ''td'') (Class ''data'')"

definition tickerSelector :: sel where
  "tickerSelector = Both (Tag ''span'') (Class ''ticker'')"

definition descriptionSelector :: sel where
  "descriptionSelector =
     Within
       (Both (Both (Tag ''section'') (Class ''comp-text''))
             (Has (Both (Both (Tag ''h2'') (Class ''comp-title''))
                        (ContainsText ''About this Benchmark''))))
       (Both (Tag ''div'') (Class ''ssmp-richtext''))"

definition topHoldingsSectionSelector :: sel where
  "topHoldingsSectionSelector =
     Both (Tag ''section'') (Has (Both (Tag ''h3'') (ContainsText ''Top Holdings'')))"

definition fundComponentDiv :: "string \<Rightarrow> sel" where
  "fundComponentDiv heading =
     Both (Both (Tag ''div'') (AttrEq ''data-fundComponent'' ''true''))
          (Has (Both (Tag ''h3'') (ContainsText heading)))"

definition sectorFundBreakdownDivSelector :: sel where
  "sectorFundBreakdownDivSelector = fundComponentDiv ''Fund Sector Breakdown''"

definition sectorBreakdownDivSelector :: sel where
  "sectorBreakdownDivSelector = fundComponentDiv ''Sector Breakdown''"

definition sectorIndustryDivSelector :: sel where
  "sectorIndustryDivSelector = fundComponentDiv ''Fund Industry Allocation''"

definition sectorSubIndustryDivSelector :: sel where
  "sectorSubIndustryDivSelector = fundComponentDiv ''Fund Sub-Industry Allocation''"

definition geographicalSelector :: sel where
  "geographicalSelector = Both (Tag ''input'') (Id ''fund-geographical-breakdown'')"

text \<open>\<^verbatim>\<open>Each\<close>: the callback runs on every selected node with its index, in order.\<close>

fun Each :: "(nat \<Rightarrow> path \<Rightarrow> 's \<Rightarrow> 's) \<Rightarrow> nat \<Rightarrow> selection \<Rightarrow> 's \<Rightarrow> 's" where
  "Each f index [] s = s"
| "Each f index (p # ps) s = Each f (Suc index) ps (f index p s)"

text \<open>The callback of \<^verbatim>\<open>findHoldings\<close>: what one row adds to the slice.\<close>

definition holdingsRow :: "node \<Rightarrow> nat \<Rightarrow> path \<Rightarrow> Holding slice \<Rightarrow> Holding slice" where
  "holdingsRow doc index rowHtml fundHoldings =
     (if index > 0 \<and> Text doc (Find doc [rowHtml] labelCellSelector) \<noteq> []
      then
        if Text doc (Eq (Find doc [rowHtml] dataCellSelector) 1) \<noteq> []
        then
          let holdingName = Text doc (Find doc [rowHtml] labelCellSelector);
              sharesHeld = Text doc (Eq (Find doc [rowHtml] dataCellSelector) 0);
              weight = Text doc (Eq (Find doc [rowHtml] dataCellSelector) 1)
          in append fundHoldings
               \<lparr>hName = holdingName, hSharesHeld = sharesHeld, hWeight = weight\<rparr>
        else fundHoldings
      else fundHoldings)"

definition findHoldings :: "node \<Rightarrow> error + Holding slice" where
  "findHoldings doc =
     (let div' = docFind doc topHoldingsSectionSelector
      in if length div' = 0 then Inl ErrNotFound
         else Inr (Each (holdingsRow doc) 0
                     (Find doc (Find doc div' tableSelector) (Tag ''tr'')) None))"

definition sectorDivs :: "sel list" where
  "sectorDivs =
     [sectorBreakdownDivSelector,
      sectorIndustryDivSelector,
      sectorSubIndustryDivSelector,
      sectorFundBreakdownDivSelector]"

text \<open>
  The loop over the candidates: it stops at the first selector that selects something and
  otherwise ends with the (empty) selection of the last one.
\<close>

fun firstSectorDiv :: "node \<Rightarrow> sel list \<Rightarrow> selection \<Rightarrow> selection" where
  "firstSectorDiv doc [] sectorDiv = sectorDiv"
| "firstSectorDiv doc (s # ss) sectorDiv =
     (let sectorDiv' = docFind doc s
      in if length sectorDiv' \<noteq> 0 then sectorDiv' else firstSectorDiv doc ss sectorDiv')"

definition sectorsRow :: "node \<Rightarrow> nat \<Rightarrow> path \<Rightarrow> WeightData slice \<Rightarrow> WeightData slice" where
  "sectorsRow doc index rowHtml sectors =
     (if index > 0 \<and> Text doc (Find doc [rowHtml] labelCellSelector) \<noteq> []
      then
        let name = Text doc (Find doc [rowHtml] labelCellSelector);
            weight = Text doc (Eq (Find doc [rowHtml] dataCellSelector) 0)
        in append sectors \<lparr>wName = name, wWeight = weight\<rparr>
      else sectors)"

definition sectorRows :: "node \<Rightarrow> selection \<Rightarrow> WeightData slice" where
  "sectorRows doc sectorDiv =
     Each (sectorsRow doc) 0 (Find doc (Find doc sectorDiv tableSelector) (Tag ''tr'')) (Some [])"

definition findSectors :: "node \<Rightarrow> error + WeightData slice" where
  "findSectors doc =
     (let sectorDiv = firstSectorDiv doc sectorDivs []
      in if length sectorDiv = 0 then Inl ErrNotFound
         else Inr (sectorRows doc sectorDiv))"

definition processGeographicalData :: "GeographicalData \<Rightarrow> WeightData slice" where
  "processGeographicalData geoData =
     Some (map (\<lambda>cw. \<lparr>wName = cwNameValue cw, wWeight = cwWeightValue cw\<rparr>)
             (case AttributeArray geoData of None \<Rightarrow> [] | Some xs \<Rightarrow> xs))"

text \<open>
  \<^verbatim>\<open>json.Unmarshal\<close> into \<^verbatim>\<open>GeographicalData\<close> belongs to the JSON library; it is a
  parameter \<open>unmarshal\<close> of the extractor.
\<close>

type_synonym unmarshal = "string \<Rightarrow> error + GeographicalData"

definition findCountries :: "unmarshal \<Rightarrow> node \<Rightarrow> error + WeightData slice" where
  "findCountries unmarshal doc =
     (let inputElement = docFind doc geographicalSelector
      in if length inputElement = 0 then Inl ErrNotFound
         else let val = AttrOr doc inputElement ''value'' []
              in case unmarshal val of
                   Inl err \<Rightarrow> Inl err
                 | Inr geoData \<Rightarrow> Inr (processGeographicalData geoData))"

definition buildETF :: "unmarshal \<Rightarrow> node \<Rightarrow> error + ETF" where
  "buildETF unmarshal doc =
     (let name = TrimSpace (Text doc (docFind doc tickerSelector))
      in if name = [] then Inl NotFoundName
         else let description = Text doc (docFind doc descriptionSelector)
              in if description = [] then Inl DescriptionFoundName
                 else case findHoldings doc of
                        Inl err \<Rightarrow> Inl (FindHoldingsReturns err)
                      | Inr topHoldings \<Rightarrow>
                         (case findSectors doc of
                            Inl err \<Rightarrow> Inl (FindSectorsReturns err)
                          | Inr sectors \<Rightarrow>
                             (case findCountries unmarshal doc of
                                Inl err \<Rightarrow>
                                  if err \<noteq> ErrNotFound then Inl (FindCountriesReturns err)
                                  else Inr \<lparr>ID = name,
                                            Data = ToJson \<lparr>Name = name, Description = description,
                                                     TopHoldings = topHoldings, Countries = None,
                                                     Sectors = sectors\<rparr>\<rparr>
                              | Inr countries \<Rightarrow>
                                  Inr \<lparr>ID = name,
                                       Data = ToJson \<lparr>Name = name, Description = description,
                                                TopHoldings = topHoldings, Countries = countries,
                                                Sectors = sectors\<rparr>\<rparr>)))"

section \<open>The world of one update: requests, storage, log\<close>

text \<open>
  What the updater does besides computing is recorded in a state: the rows of the \<^verbatim>\<open>etfs\<close>
  table (identity and payload; the two time stamps of a row are filled in by the database
  and are left out) and the trace of the observable events, in order: log lines, calls of
  the storage, sleeps, ticks and the exit of the process.
\<close>

datatype event =
    LogError error
  | LogCouldNotBuildETF error string
  | LogCouldNotUpsertETF error string
  | UpsertCall ETF
  | LogFatalInitialFailed error
  | LogInfoCompleted
  | LogAttemptFailed nat error
  | LogInfoRetrying
  | Sleep nat
  | NewTicker nat
  | Tick
  | ExitProcess nat

record state =
  rows :: "(string \<times> json) list"
  trace :: "event list"

definition emit :: "event list \<Rightarrow> state \<Rightarrow> state" where
  "emit evs st = st\<lparr>trace := trace st @ evs\<rparr>"

text \<open>
  What the outside answers during one run of \<^verbatim>\<open>UpdateData\<close>: the response of the site
  to a request (or the error of the request), whose body reads as text or fails; the
  result of parsing a text as a document; the result of deserializing the geographic
  payload; the database error, if any, that the upsert of the item fetched from a URL
  meets (every path of a run is fetched once, so one answer per URL covers the run); and
  the result of path discovery, the paths in the order in which the items take effect.
\<close>

datatype response = Response "error + string"

fun Body :: "response \<Rightarrow> error + string" where
  "Body (Response b) = b"

record world =
  httpGet :: "string \<Rightarrow> error + response"
  newDocumentFromReader :: "string \<Rightarrow> error + node"
  jsonUnmarshal :: unmarshal
  dbFault :: "string \<Rightarrow> error option"
  getPaths :: "error + string list"

text \<open>
  \<^verbatim>\<open>Upsert\<close>: in one transaction, count the rows with the identity, then update the
  payload of the row or insert a new row; on any database error the transaction is rolled
  back and the error returned.
\<close>

definition Upsert :: "error option \<Rightarrow> ETF \<Rightarrow> state \<Rightarrow> error option \<times> state" where
  "Upsert fault etf st =
     (let st1 = emit [UpsertCall etf] st
      in case fault of
           Some err \<Rightarrow> (Some err, st1)
         | None \<Rightarrow>
             let count = length (filter (\<lambda>r. fst r = ID etf) (rows st1))
             in if count > 0
                then (None, st1\<lparr>rows := map (\<lambda>r. if fst r = ID etf then (fst r, Data etf) else r)
                                           (rows st1)\<rparr>)
                else (None, st1\<lparr>rows := rows st1 @ [(ID etf, Data etf)]\<rparr>))"

definition updateETF :: "world \<Rightarrow> string \<Rightarrow> string \<Rightarrow> state \<Rightarrow> state" where
  "updateETF w host path st =
     (let url = host @ path
      in case httpGet w url of
           Inl err \<Rightarrow> emit [LogError err] st
         | Inr resp \<Rightarrow>
            (case Body resp of
               Inl err \<Rightarrow> emit [LogError err] st
             | Inr htmlContent \<Rightarrow>
                (case newDocumentFromReader w htmlContent of
                   Inl err \<Rightarrow> emit [LogError err] st
                 | Inr doc \<Rightarrow>
                    (case buildETF (jsonUnmarshal w) doc of
                       Inl err \<Rightarrow> emit [LogCouldNotBuildETF err url] st
                     | Inr etf \<Rightarrow>
                        (case Upsert (dbFault w url) etf st of
                           (Some err, st1) \<Rightarrow> emit [LogCouldNotUpsertETF err url] st1
                         | (None, st1) \<Rightarrow> st1)))))"

text \<open>
  \<^verbatim>\<open>UpdateData\<close>: discovery, then one worker per path. The workers' effects on the state
  are taken one worker after the other, in the order of the discovered list; how the
  workers are admitted and awaited is the subject of the orchestrator model below.
\<close>

definition UpdateData :: "world \<Rightarrow> string \<Rightarrow> state \<Rightarrow> error option \<times> state" where
  "UpdateData w host st =
     (case getPaths w of
        Inl err \<Rightarrow> (Some (FailedToGetDataPaths err), st)
      | Inr fetchPaths \<Rightarrow> (None, fold (updateETF w host) fetchPaths st))"

section \<open>The scheduler\<close>

text \<open>
  \<^verbatim>\<open>Run\<close> calls \<^verbatim>\<open>UpdateData\<close> again and again; \<open>ws k\<close> is the world that the k-th call
  meets. Durations are in hours. The loop on the ticker never ends, so the model is given
  the number of ticks to follow and then stops in front of the ticker; the fatal log call
  exits the process with status 1.
\<close>

datatype status = Exited nat | AwaitingTick

definition retries :: nat where
  "retries = 3"

function retryLoop :: "(nat \<Rightarrow> world) \<Rightarrow> string \<Rightarrow> nat \<Rightarrow> nat \<Rightarrow> state \<Rightarrow> nat \<times> state" where
  "retryLoop ws host i k st =
     (if i < retries
      then case UpdateData (ws k) host st of
             (None, st1) \<Rightarrow> (Suc k, emit [LogInfoCompleted] st1)
           | (Some err, st1) \<Rightarrow>
               let st2 = emit [LogAttemptFailed (i + 1) err] st1;
                   st3 = (if i < retries - 1 then emit [LogInfoRetrying, Sleep 1] st2 else st2)
               in retryLoop ws host (i + 1) (Suc k) st3
      else (k, st))"
  by pat_completeness auto
termination
  by (relation "measure (\<lambda>(ws, host, i, k, st). retries - i)") auto

fun schedule :: "(nat \<Rightarrow> world) \<Rightarrow> string \<Rightarrow> nat \<Rightarrow> nat \<Rightarrow> state \<Rightarrow> status \<times> state" where
  "schedule ws host 0 k st = (AwaitingTick, st)"
| "schedule ws host (Suc ticks) k st =
     (case retryLoop ws host 0 k (emit [Tick] st) of
        (k1, st1) \<Rightarrow> schedule ws host ticks k1 st1)"

definition Run :: "(nat \<Rightarrow> world) \<Rightarrow> string \<Rightarrow> nat \<Rightarrow> state \<Rightarrow> status \<times> state" where
  "Run ws host ticks st =
     (case UpdateData (ws 0) host st of
        (Some err, st1) \<Rightarrow> (Exited 1, emit [LogFatalInitialFailed err, ExitProcess 1] st1)
      | (None, st1) \<Rightarrow>
          schedule ws host ticks 1 (emit [LogInfoCompleted, NewTicker 24] st1))"

section \<open>The bounded fan-out of one batch\<close>

text \<open>
  How \<^verbatim>\<open>UpdateData\<close> admits and awaits its workers, as a transition system over the
  interleavings of the main routine and the workers. The main routine ranges over the
  discovered paths (a Go map: any order); for each it adds 1 to the wait group, sends on
  the semaphore channel (which blocks while the channel holds \<open>semaphoreCapacity\<close>
  elements) and starts the worker. A worker runs \<^verbatim>\<open>updateETF\<close>; when that has returned,
  whatever it did, the deferred function receives from the channel and then calls
  \<^verbatim>\<open>Done\<close>. After the loop the main routine waits until the wait group's counter is 0.
\<close>

definition semaphoreCapacity :: nat where
  "semaphoreCapacity = 50"

datatype mainpc = AtLoop | Added string | Acquired string | Waiting | Returned

record orch =
  pending :: "string set"
  pc :: mainpc
  semaphore :: nat
  wg :: int
  running :: "string set"
  releasing :: "string set"
  signalling :: "string set"
  finished :: "string set"

definition initial :: "string set \<Rightarrow> orch" where
  "initial P =
     \<lparr>pending = P, pc = AtLoop, semaphore = 0, wg = 0, running = {}, releasing = {},
      signalling = {}, finished = {}\<rparr>"

inductive step :: "orch \<Rightarrow> orch \<Rightarrow> bool" where
  pick:
    "pc s = AtLoop \<Longrightarrow> p \<in> pending s \<Longrightarrow>
     step s (s\<lparr>pending := pending s - {p}, pc := Added p, wg := wg s + 1\<rparr>)"
| acquire:
    "pc s = Added p \<Longrightarrow> semaphore s < semaphoreCapacity \<Longrightarrow>
     step s (s\<lparr>pc := Acquired p, semaphore := semaphore s + 1\<rparr>)"
| spawn:
    "pc s = Acquired p \<Longrightarrow>
     step s (s\<lparr>pc := AtLoop, running := insert p (running s)\<rparr>)"
| drained:
    "pc s = AtLoop \<Longrightarrow> pending s = {} \<Longrightarrow> step s (s\<lparr>pc := Waiting\<rparr>)"
| complete:
    "p \<in> running s \<Longrightarrow>
     step s (s\<lparr>running := running s - {p}, releasing := insert p (releasing s)\<rparr>)"
| release:
    "p \<in> releasing s \<Longrightarrow> 0 < semaphore s \<Longrightarrow>
     step s (s\<lparr>semaphore := semaphore s - 1, releasing := releasing s - {p},
              signalling := insert p (signalling s)\<rparr>)"
| signal:
    "p \<in> signalling s \<Longrightarrow>
     step s (s\<lparr>wg := wg s - 1, signalling := signalling s - {p},
              finished := insert p (finished s)\<rparr>)"
| return:
    "pc s = Waiting \<Longrightarrow> wg s = 0 \<Longrightarrow> step s (s\<lparr>pc := Returned\<rparr>)"

definition reachable :: "string set \<Rightarrow> orch \<Rightarrow> bool" where
  "reachable P s = step\<^sup>*\<^sup>* (initial P) s"

text \<open>The path the main routine holds between picking it and starting its worker.\<close>

fun held :: "mainpc \<Rightarrow> string set" where
  "held (Added p) = {p}"
| "held (Acquired p) = {p}"
| "held AtLoop = {}"
| "held Waiting = {}"
| "held Returned = {}"

text \<open>
  The invariant of the reachable states, in three parts. Every path is in exactly one
  place. The channel holds one element for each worker that has not yet released, and one
  for the worker about to be started; the counter of the wait group counts the workers
  that have not yet signalled, and the path in the main routine's hand. Once the main
  routine waits, no path is pending, and once it has returned, every path is finished.
\<close>

definition places_inv :: "string set \<Rightarrow> orch \<Rightarrow> bool" where
  "places_inv P s =
     (pending s \<union> held (pc s) \<union> running s \<union> releasing s \<union> signalling s \<union> finished s = P \<and>
      pending s \<inter> held (pc s) = {} \<and>
      (pending s \<union> held (pc s)) \<inter> running s = {} \<and>
      (pending s \<union> held (pc s) \<union> running s) \<inter> releasing s = {} \<and>
      (pending s \<union> held (pc s) \<union> running s \<union> releasing s) \<inter> signalling s = {} \<and>
      (pending s \<union> held (pc s) \<union> running s \<union> releasing s \<union> signalling s) \<inter> finished s = {})"

definition counts_inv :: "orch \<Rightarrow> bool" where
  "counts_inv s =
     (semaphore s =
        card (running s) + card (releasing s) + (case pc s of Acquired p \<Rightarrow> 1 | _ \<Rightarrow> 0) \<and>
      semaphore s \<le> semaphoreCapacity \<and>
      wg s =
        int (card (running s) + card (releasing s) + card (signalling s) + card (held (pc s))))"

definition pc_inv :: "string set \<Rightarrow> orch \<Rightarrow> bool" where
  "pc_inv P s =
     ((pc s = Waiting \<or> pc s = Returned \<longrightarrow> pending s = {}) \<and>
      (pc s = Returned \<longrightarrow> finished s = P))"

definition orch_inv :: "string set \<Rightarrow> orch \<Rightarrow> bool" where
  "orch_inv P s = (places_inv P s \<and> counts_inv s \<and> pc_inv P s)"

text \<open>
  The number of steps that a state is away from the return of the batch run: six for a
  pending path (pick, acquire, start, complete, release, signal), fewer for a path on its
  way, and the two steps of the main routine after the loop.
\<close>

definition remaining :: "orch \<Rightarrow> nat" where
  "remaining s =
     6 * card (pending s) +
     (case pc s of AtLoop \<Rightarrow> 2 | Added p \<Rightarrow> 7 | Acquired p \<Rightarrow> 6 | Waiting \<Rightarrow> 1 | Returned \<Rightarrow> 0) +
     3 * card (running s) + 2 * card (releasing s) + card (signalling s)"

text \<open>One path discovered, its worker running.\<close>

definition oneRunning :: orch where
  "oneRunning =
     \<lparr>pending = {}, pc = AtLoop, semaphore = 1, wg = 1, running = {''/fund/AAA''},
      releasing = {}, signalling = {}, finished = {}\<rparr>"

section \<open>Notions used to state the properties\<close>

text \<open>The rows that \<^verbatim>\<open>findHoldings\<close> iterates over, and the texts it reads in a row.\<close>

definition holdingsTableRows :: "node \<Rightarrow> selection" where
  "holdingsTableRows doc =
     Find doc (Find doc (docFind doc topHoldingsSectionSelector) tableSelector) (Tag ''tr'')"

definition labelText :: "node \<Rightarrow> path \<Rightarrow> string" where
  "labelText doc rowHtml = Text doc (Find doc [rowHtml] labelCellSelector)"

definition dataText :: "node \<Rightarrow> path \<Rightarrow> nat \<Rightarrow> string" where
  "dataText doc rowHtml i = Text doc (Eq (Find doc [rowHtml] dataCellSelector) i)"

text \<open>A slice that has only been appended to: nil when nothing was appended.\<close>

definition appended :: "'a list \<Rightarrow> 'a slice" where
  "appended xs = (if xs = [] then None else Some xs)"

text \<open>
  The order of the candidates as the specification words it, and \<^verbatim>\<open>findSectors\<close> with
  that order in place of the order of the source: the specification's reading, to be
  compared with \<open>findSectors\<close>.
\<close>

definition sectorDivsSpecOrder :: "sel list" where
  "sectorDivsSpecOrder =
     [sectorFundBreakdownDivSelector,
      sectorBreakdownDivSelector,
      sectorIndustryDivSelector,
      sectorSubIndustryDivSelector]"

definition findSectorsSpecOrder :: "node \<Rightarrow> error + WeightData slice" where
  "findSectorsSpecOrder doc =
     (let sectorDiv = firstSectorDiv doc sectorDivsSpecOrder []
      in if length sectorDiv = 0 then Inl ErrNotFound
         else Inr (sectorRows doc sectorDiv))"

text \<open>The record that the item at a path gets stored, if every stage of its pipeline succeeds.\<close>

definition stored :: "world \<Rightarrow> string \<Rightarrow> string \<Rightarrow> ETF option" where
  "stored w host path =
     (case httpGet w (host @ path) of
        Inl err \<Rightarrow> None
      | Inr resp \<Rightarrow>
         (case Body resp of
            Inl err \<Rightarrow> None
          | Inr htmlContent \<Rightarrow>
             (case newDocumentFromReader w htmlContent of
                Inl err \<Rightarrow> None
              | Inr doc \<Rightarrow>
                 (case buildETF (jsonUnmarshal w) doc of
                    Inl err \<Rightarrow> None
                  | Inr etf \<Rightarrow>
                     (case dbFault w (host @ path) of Some err \<Rightarrow> None | None \<Rightarrow> Some etf)))))"

text \<open>The key of a serialized record's field list, looked up.\<close>

definition field :: "ETFData \<Rightarrow> string \<Rightarrow> json option" where
  "field m key = map_of (ToJsonFields m) key"

section \<open>Example documents\<close>

definition tickerSpan :: "string \<Rightarrow> node" where
  "tickerSpan t = Element ''span'' [(''class'', ''ticker'')] [TextNode t]"

definition aboutSection :: "string \<Rightarrow> node" where
  "aboutSection d =
     Element ''section'' [(''class'', ''comp-text'')]
       [Element ''h2'' [(''class'', ''comp-title'')] [TextNode ''About this Benchmark''],
        Element ''div'' [(''class'', ''ssmp-richtext'')] [TextNode d]]"

definition headerRow :: node where
  "headerRow =
     Element ''tr'' []
       [Element ''th'' [] [TextNode ''Name''], Element ''th'' [] [TextNode ''Weight'']]"

definition dataRow :: "string \<Rightarrow> string list \<Rightarrow> node" where
  "dataRow l ds =
     Element ''tr'' []
       (Element ''td'' [(''class'', ''label'')] [TextNode l]
        # map (\<lambda>d. Element ''td'' [(''class'', ''data'')] [TextNode d]) ds)"

definition dataTable :: "node list \<Rightarrow> node" where
  "dataTable trs = Element ''table'' [(''class'', ''data-table'')] [Element ''tbody'' [] trs]"

definition holdingsSection :: "node list \<Rightarrow> node" where
  "holdingsSection trs =
     Element ''section'' [] [Element ''h3'' [] [TextNode ''Fund Top Holdings''], dataTable trs]"

definition sectorDiv :: "string \<Rightarrow> node list \<Rightarrow> node" where
  "sectorDiv heading trs =
     Element ''div'' [(''data-fundcomponent'', ''true'')]
       [Element ''h3'' [] [TextNode heading], dataTable trs]"

definition page :: "node list \<Rightarrow> node" where
  "page content =
     Element [] [] [Element ''html'' [] [Element ''head'' [] [], Element ''body'' [] content]]"

text \<open>A fund page with sectors and no holdings section.\<close>

definition docNoHoldings :: node where
  "docNoHoldings =
     page [tickerSpan ''AAA'', aboutSection ''desc'',
           sectorDiv ''Fund Sector Breakdown'' [headerRow, dataRow ''Energy'' [''10%'']]]"

text \<open>A fund page with holdings and none of the four sector sections.\<close>

definition docNoSectors :: node where
  "docNoSectors =
     page [tickerSpan ''AAA'', aboutSection ''desc'',
           holdingsSection [headerRow, dataRow ''Apple Inc.'' [''1,000'', ''7.1%'']]]"

text \<open>A fund page with an index breakdown and a fund breakdown of sectors.\<close>

definition docTwoBreakdowns :: node where
  "docTwoBreakdowns =
     page [tickerSpan ''AAA'', aboutSection ''desc'',
           sectorDiv ''Index Sector Breakdown'' [headerRow, dataRow ''Tech'' [''30%'']],
           sectorDiv ''Fund Sector Breakdown'' [headerRow, dataRow ''Energy'' [''10%'']]]"

text \<open>
  A holdings table whose cells carry the white space of the markup around their text,
  with a row that has one data cell only and a row without a label.
\<close>

definition docHoldings :: node where
  "docHoldings =
     page [tickerSpan '' AAA '', aboutSection ''desc'',
           holdingsSection
             [dataRow ''First'' [''1'', ''2''],
              dataRow '' Apple Inc. '' ['' 1,000 '', '' 7.1% ''],
              dataRow ''Index only'' [''5%''],
              dataRow [] [''3'', ''4'']]]"

text \<open>A page without the ticker element, and one whose ticker is white space.\<close>

definition docNoTicker :: node where
  "docNoTicker =
     page [aboutSection ''desc'',
           holdingsSection [headerRow, dataRow ''Apple Inc.'' [''1,000'', ''7.1%'']]]"

definition docBlankTicker :: node where
  "docBlankTicker = page [tickerSpan ''  '', aboutSection ''desc'']"

text \<open>A page whose ticker is a no-break space (U+00A0, the character of \<^verbatim>\<open>&nbsp;\<close>).\<close>

definition docNbspTicker :: node where
  "docNbspTicker =
     page [tickerSpan [CHR 0xC2, CHR 0xA0], aboutSection ''desc'',
           holdingsSection [headerRow, dataRow ''Apple Inc.'' [''1,000'', ''7.1%'']],
           sectorDiv ''Fund Sector Breakdown'' [headerRow, dataRow ''Energy'' [''10%'']]]"

text \<open>A world that serves one document at every URL and discovers the given paths.\<close>

definition noGeo :: unmarshal where
  "noGeo v = Inl (External ''unexpected end of JSON input'')"

definition serving :: "node \<Rightarrow> string list \<Rightarrow> world" where
  "serving doc ps =
     \<lparr>httpGet = (\<lambda>url. Inr (Response (Inr ''<html>''))),
      newDocumentFromReader = (\<lambda>text. Inr doc),
      jsonUnmarshal = noGeo,
      dbFault = (\<lambda>url. None),
      getPaths = Inr ps\<rparr>"

definition emptyState :: state where
  "emptyState = \<lparr>rows = [], trace = []\<rparr>"

text \<open>A complete fund page, and a site that times out at one of two discovered paths.\<close>

definition docFull :: node where
  "docFull =
     page [tickerSpan ''AAA'', aboutSection ''desc'',
           holdingsSection [headerRow, dataRow ''Apple Inc.'' [''1,000'', ''7.1%'']],
           sectorDiv ''Fund Sector Breakdown'' [headerRow, dataRow ''Energy'' [''10%'']]]"

definition timeoutAtBBB :: world where
  "timeoutAtBBB =
     (serving docFull [''/fund/AAA'', ''/fund/BBB''])
       \<lparr>httpGet := (\<lambda>url. if url = ''https://www.ssga.com/fund/BBB''
                          then Inl (External ''timeout'')
                          else Inr (Response (Inr ''<html>'')))\<rparr>"

text \<open>A world in which path discovery fails.\<close>

definition noDiscovery :: world where
  "noDiscovery =
     (serving docFull [])\<lparr>getPaths := Inl (External ''could not launch playwright'')\<rparr>"

text \<open>A record without holdings, countries and sectors.\<close>

definition bareRecord :: ETFData where
  "bareRecord =
     \<lparr>Name = ''AAA'', Description = ''desc'', TopHoldings = None, Countries = None,
      Sectors = Some []\<rparr>"

text \<open>A record with empty holdings and countries, and one sector.\<close>

definition listedRecord :: ETFData where
  "listedRecord =
     \<lparr>Name = ''AAA'', Description = ''desc'', TopHoldings = Some [], Countries = Some [],
      Sectors = Some [\<lparr>wName = ''Energy'', wWeight = ''10%''\<rparr>]\<rparr>"

text \<open>Discovery fails at the calls before the n-th and succeeds, with no paths, from then on.\<close>

definition recovering :: "nat \<Rightarrow> nat \<Rightarrow> world" where
  "recovering n k = (if k < n then noDiscovery else serving docFull [])"

text \<open>The batch run of one path, returned.\<close>

definition allDone :: orch where
  "allDone =
     \<lparr>pending = {}, pc = Returned, semaphore = 0, wg = 0, running = {}, releasing = {},
      signalling = {}, finished = {''/fund/AAA''}\<rparr>"

section \<open>Basic facts\<close>

declare retryLoop.simps [simp del]

declare stripSpace.simps [simp del]

lemma TrimSpace_Nil: "TrimSpace [] = []"
  by (simp add: TrimSpace_def stripSpace.simps [of _ "[]"])

lemma emit_emit: "emit b (emit a st) = emit (a @ b) st"
  by (simp add: emit_def)

lemma UpdateData_failed:
  "getPaths w = Inl err \<Longrightarrow> UpdateData w host st = (Some (FailedToGetDataPaths err), st)"
  by (simp add: UpdateData_def)

lemma UpdateData_ran:
  "getPaths w = Inr ps \<Longrightarrow> UpdateData w host st = (None, fold (updateETF w host) ps st)"
  by (simp add: UpdateData_def)

section \<open>Extraction: holdings\<close>

text \<open>
  Claim C1, as amended. For every document in which the holdings section (a section whose
  heading contains "Top Holdings") is absent, \<open>findHoldings\<close> reports "not found" and the
  extraction fails: \<open>buildETF\<close> returns an error and no record. The error is the wrapped
  error of \<open>findHoldings\<close> whenever the name and the description are there.
\<close>

theorem holdings_absent_extraction_fails:
  assumes "docFind doc topHoldingsSectionSelector = []"
  shows "findHoldings doc = Inl ErrNotFound \<and>
         buildETF unmarshal doc =
           (if TrimSpace (Text doc (docFind doc tickerSelector)) = [] then Inl NotFoundName
            else if Text doc (docFind doc descriptionSelector) = [] then Inl DescriptionFoundName
            else Inl (FindHoldingsReturns ErrNotFound))"
  using assms by (simp add: findHoldings_def buildETF_def Let_def)

lemma docNoHoldings_ticker:
  "TrimSpace (Text docNoHoldings (docFind docNoHoldings tickerSelector)) = ''AAA''"
  by code_simp

lemma docNoHoldings_description:
  "Text docNoHoldings (docFind docNoHoldings descriptionSelector) = ''desc''"
  by code_simp

lemma docNoHoldings_absent: "docFind docNoHoldings topHoldingsSectionSelector = []"
  by code_simp

theorem holdings_absent_extraction_fails_witness:
  "docFind docNoHoldings topHoldingsSectionSelector = [] \<and>
   findHoldings docNoHoldings = Inl ErrNotFound \<and>
   buildETF noGeo docNoHoldings = Inl (FindHoldingsReturns ErrNotFound)"
  using holdings_absent_extraction_fails [OF docNoHoldings_absent, of noGeo]
  by (simp add: docNoHoldings_ticker docNoHoldings_description docNoHoldings_absent)

text \<open>
  The claim as the specification states it fails on a page that has a name, a
  description and a sector section, and no holdings section: no record comes out.
\<close>

theorem holdings_absent_counterexample:
  "length (docFind docNoHoldings topHoldingsSectionSelector) = 0 \<and>
   buildETF noGeo docNoHoldings = Inl (FindHoldingsReturns ErrNotFound)"
  by code_simp

lemma Each_holdingsRow_from:
  "0 < i \<Longrightarrow>
   Each (holdingsRow doc) i rs acc =
     (let xs = map (\<lambda>r. \<lparr>hName = labelText doc r, hSharesHeld = dataText doc r 0,
                           hWeight = dataText doc r 1\<rparr>)
                 (filter (\<lambda>r. labelText doc r \<noteq> [] \<and> dataText doc r 1 \<noteq> []) rs)
      in if xs = [] then acc else Some ((case acc of None \<Rightarrow> [] | Some ys \<Rightarrow> ys) @ xs))"
proof (induction rs arbitrary: i acc)
  case Nil
  then show ?case by simp
next
  case (Cons r rs)
  have one: "holdingsRow doc i r acc =
      (if labelText doc r \<noteq> [] \<and> dataText doc r 1 \<noteq> []
       then append acc \<lparr>hName = labelText doc r, hSharesHeld = dataText doc r 0,
                        hWeight = dataText doc r 1\<rparr>
       else acc)"
    using Cons.prems by (simp add: holdingsRow_def labelText_def dataText_def Let_def)
  have "Each (holdingsRow doc) i (r # rs) acc =
        Each (holdingsRow doc) (Suc i) rs (holdingsRow doc i r acc)"
    by simp
  also have "\<dots> =
     (let xs = map (\<lambda>r. \<lparr>hName = labelText doc r, hSharesHeld = dataText doc r 0,
                           hWeight = dataText doc r 1\<rparr>)
                 (filter (\<lambda>r. labelText doc r \<noteq> [] \<and> dataText doc r 1 \<noteq> []) rs)
      in if xs = [] then holdingsRow doc i r acc
         else Some ((case holdingsRow doc i r acc of None \<Rightarrow> [] | Some ys \<Rightarrow> ys) @ xs))"
    by (rule Cons.IH) simp
  finally show ?case
    by (simp add: one Let_def append_def split: option.splits)
qed

text \<open>
  Claim C4, as amended. When the holdings section is there, the result of \<open>findHoldings\<close>
  is made from the rows of its tables, in order: the row at index 0 is left out whatever
  it holds; of the rows after it, those with an empty label text or an empty text in the
  second data cell are left out; each other row gives exactly one holding, whose name is
  the label text, whose shares held is the text of the first data cell and whose weight
  is the text of the second, each the raw text as it stands in the document: nothing is
  trimmed and nothing is parsed as a number.
\<close>

theorem findHoldings_rows:
  assumes "docFind doc topHoldingsSectionSelector \<noteq> []"
  shows "findHoldings doc =
           Inr (appended
                  (map (\<lambda>r. \<lparr>hName = labelText doc r, hSharesHeld = dataText doc r 0,
                              hWeight = dataText doc r 1\<rparr>)
                       (filter (\<lambda>r. labelText doc r \<noteq> [] \<and> dataText doc r 1 \<noteq> [])
                          (tl (holdingsTableRows doc)))))"
proof (cases "holdingsTableRows doc")
  case Nil
  then show ?thesis
    using assms by (simp add: findHoldings_def Let_def appended_def holdingsTableRows_def)
next
  case (Cons r0 rs)
  have first: "holdingsRow doc 0 r0 None = None"
    by (simp add: holdingsRow_def)
  have "Each (holdingsRow doc) 0 (r0 # rs) None = Each (holdingsRow doc) (Suc 0) rs None"
    by (simp add: first)
  then show ?thesis
    using assms Cons
    by (simp add: findHoldings_def Let_def appended_def Each_holdingsRow_from
        holdingsTableRows_def [symmetric])
qed

lemma docHoldings_present: "docFind docHoldings topHoldingsSectionSelector \<noteq> []"
  by code_simp

lemma docHoldings_rows:
  "appended
     (map (\<lambda>r. \<lparr>hName = labelText docHoldings r, hSharesHeld = dataText docHoldings r 0,
                 hWeight = dataText docHoldings r 1\<rparr>)
        (filter (\<lambda>r. labelText docHoldings r \<noteq> [] \<and> dataText docHoldings r 1 \<noteq> [])
           (tl (holdingsTableRows docHoldings)))) =
   Some [\<lparr>hName = '' Apple Inc. '', hSharesHeld = '' 1,000 '', hWeight = '' 7.1% ''\<rparr>]"
  by code_simp

text \<open>
  In the example the first of the four rows is a full data row: it is left out all the
  same, and so are the row with one data cell and the row without a label.
\<close>

theorem findHoldings_rows_witness:
  "docFind docHoldings topHoldingsSectionSelector \<noteq> [] \<and>
   length (holdingsTableRows docHoldings) = 4 \<and>
   findHoldings docHoldings =
     Inr (Some [\<lparr>hName = '' Apple Inc. '', hSharesHeld = '' 1,000 '', hWeight = '' 7.1% ''\<rparr>])"
proof -
  have n: "length (holdingsTableRows docHoldings) = 4" by code_simp
  have "findHoldings docHoldings =
     Inr (Some [\<lparr>hName = '' Apple Inc. '', hSharesHeld = '' 1,000 '', hWeight = '' 7.1% ''\<rparr>])"
    unfolding findHoldings_rows [OF docHoldings_present] docHoldings_rows ..
  with docHoldings_present n show ?thesis by simp
qed

text \<open>
  The fields are not trimmed: the white space around the text of a cell stays in the
  holding, where the claim as stated has the trimmed text.
\<close>

theorem findHoldings_untrimmed_counterexample:
  "findHoldings docHoldings =
     Inr (Some [\<lparr>hName = '' Apple Inc. '', hSharesHeld = '' 1,000 '', hWeight = '' 7.1% ''\<rparr>]) \<and>
   TrimSpace '' Apple Inc. '' = ''Apple Inc.'' \<and>
   TrimSpace '' 1,000 '' = ''1,000'' \<and>
   TrimSpace '' 7.1% '' = ''7.1%''"
  by code_simp

section \<open>Extraction: sectors\<close>

text \<open>
  Claim C2, as amended. \<open>findSectors\<close> tries the four candidate selectors in the order
  sector breakdown, fund industry allocation, fund sub-industry allocation, fund sector
  breakdown, and collects the rows of what the first selector that selects anything has
  selected; the later candidates are not looked at. It reports "not found" when none
  selects anything.
\<close>

theorem findSectors_order:
  "findSectors doc =
     (if docFind doc sectorBreakdownDivSelector \<noteq> []
      then Inr (sectorRows doc (docFind doc sectorBreakdownDivSelector))
      else if docFind doc sectorIndustryDivSelector \<noteq> []
      then Inr (sectorRows doc (docFind doc sectorIndustryDivSelector))
      else if docFind doc sectorSubIndustryDivSelector \<noteq> []
      then Inr (sectorRows doc (docFind doc sectorSubIndustryDivSelector))
      else if docFind doc sectorFundBreakdownDivSelector \<noteq> []
      then Inr (sectorRows doc (docFind doc sectorFundBreakdownDivSelector))
      else Inl ErrNotFound)"
  by (simp add: findSectors_def sectorDivs_def Let_def)

lemma docNoHoldings_sectors:
  "docFind docNoHoldings sectorBreakdownDivSelector = [[0, 1, 2]] \<and>
   sectorRows docNoHoldings [[0, 1, 2]] = Some [\<lparr>wName = ''Energy'', wWeight = ''10%''\<rparr>]"
  by code_simp

theorem findSectors_order_witness:
  "docFind docNoHoldings sectorBreakdownDivSelector = [[0, 1, 2]] \<and>
   findSectors docNoHoldings = Inr (Some [\<lparr>wName = ''Energy'', wWeight = ''10%''\<rparr>])"
  using findSectors_order [of docNoHoldings] docNoHoldings_sectors by simp

text \<open>
  On a page with an index breakdown and a fund breakdown of sectors, the order of the
  specification (fund sector breakdown first) gives the rows of the fund breakdown only;
  the source asks for "Sector Breakdown" first, which selects both sections, and gives
  the rows of both.
\<close>

theorem findSectors_order_counterexample:
  "docFind docTwoBreakdowns sectorFundBreakdownDivSelector = [[0, 1, 3]] \<and>
   findSectorsSpecOrder docTwoBreakdowns =
     Inr (Some [\<lparr>wName = ''Energy'', wWeight = ''10%''\<rparr>]) \<and>
   findSectors docTwoBreakdowns =
     Inr (Some [\<lparr>wName = ''Tech'', wWeight = ''30%''\<rparr>,
                \<lparr>wName = ''Energy'', wWeight = ''10%''\<rparr>])"
  by code_simp

text \<open>
  Claim C3, as amended. For every document in which none of the four candidate sections
  is there, \<open>findSectors\<close> reports "not found" and the extraction fails: \<open>buildETF\<close>
  returns an error and no record. The error is the wrapped error of \<open>findSectors\<close>
  whenever the name, the description and the holdings section are there.
\<close>

theorem sectors_absent_extraction_fails:
  assumes "docFind doc sectorBreakdownDivSelector = []"
      and "docFind doc sectorIndustryDivSelector = []"
      and "docFind doc sectorSubIndustryDivSelector = []"
      and "docFind doc sectorFundBreakdownDivSelector = []"
  shows "findSectors doc = Inl ErrNotFound \<and>
         buildETF unmarshal doc =
           (if TrimSpace (Text doc (docFind doc tickerSelector)) = [] then Inl NotFoundName
            else if Text doc (docFind doc descriptionSelector) = [] then Inl DescriptionFoundName
            else case findHoldings doc of
                   Inl err \<Rightarrow> Inl (FindHoldingsReturns err)
                 | Inr topHoldings \<Rightarrow> Inl (FindSectorsReturns ErrNotFound))"
proof -
  have s: "findSectors doc = Inl ErrNotFound"
    using assms by (simp add: findSectors_def sectorDivs_def Let_def)
  show ?thesis
    by (simp add: s buildETF_def Let_def split: sum.splits)
qed

lemma docNoSectors_absent:
  "docFind docNoSectors sectorBreakdownDivSelector = [] \<and>
   docFind docNoSectors sectorIndustryDivSelector = [] \<and>
   docFind docNoSectors sectorSubIndustryDivSelector = [] \<and>
   docFind docNoSectors sectorFundBreakdownDivSelector = []"
  by code_simp

lemma docNoSectors_parts:
  "TrimSpace (Text docNoSectors (docFind docNoSectors tickerSelector)) = ''AAA'' \<and>
   Text docNoSectors (docFind docNoSectors descriptionSelector) = ''desc'' \<and>
   findHoldings docNoSectors =
     Inr (Some [\<lparr>hName = ''Apple Inc.'', hSharesHeld = ''1,000'', hWeight = ''7.1%''\<rparr>])"
  by code_simp

theorem sectors_absent_extraction_fails_witness:
  "docFind docNoSectors sectorBreakdownDivSelector = [] \<and>
   docFind docNoSectors sectorIndustryDivSelector = [] \<and>
   docFind docNoSectors sectorSubIndustryDivSelector = [] \<and>
   docFind docNoSectors sectorFundBreakdownDivSelector = [] \<and>
   findSectors docNoSectors = Inl ErrNotFound \<and>
   buildETF noGeo docNoSectors = Inl (FindSectorsReturns ErrNotFound)"
  using sectors_absent_extraction_fails [of docNoSectors noGeo] docNoSectors_absent
    docNoSectors_parts
  by simp

text \<open>
  The claim as the specification states it fails on a page that has a name, a
  description and holdings, and none of the four sector sections: no record comes out.
\<close>

theorem sectors_absent_counterexample:
  "length (docFind docNoSectors sectorFundBreakdownDivSelector) = 0 \<and>
   length (docFind docNoSectors sectorBreakdownDivSelector) = 0 \<and>
   length (docFind docNoSectors sectorIndustryDivSelector) = 0 \<and>
   length (docFind docNoSectors sectorSubIndustryDivSelector) = 0 \<and>
   buildETF noGeo docNoSectors = Inl (FindSectorsReturns ErrNotFound)"
  by code_simp

section \<open>Extraction: identity\<close>

text \<open>
  Claim C9. For every document in which the ticker element is absent, or its text is
  empty after trimming white space (the white space of Unicode, as \<^verbatim>\<open>strings.TrimSpace\<close>
  trims it), the extraction fails with the "not found name" error,
  and the worker that fetched the document logs the failure and makes no call of the
  storage: the log line is the only event it adds, and the table stays as it was.
\<close>

theorem missing_ticker_no_upsert:
  assumes "httpGet w (host @ path) = Inr resp"
      and "Body resp = Inr htmlContent"
      and "newDocumentFromReader w htmlContent = Inr doc"
      and "docFind doc tickerSelector = [] \<or>
           TrimSpace (Text doc (docFind doc tickerSelector)) = []"
  shows "buildETF (jsonUnmarshal w) doc = Inl NotFoundName \<and>
         trace (updateETF w host path st) =
           trace st @ [LogCouldNotBuildETF NotFoundName (host @ path)] \<and>
         rows (updateETF w host path st) = rows st"
proof -
  have "TrimSpace (Text doc (docFind doc tickerSelector)) = []"
    using assms(4) by (auto simp: Text_def TrimSpace_Nil)
  then have b: "buildETF (jsonUnmarshal w) doc = Inl NotFoundName"
    by (simp add: buildETF_def)
  show ?thesis
    using assms(1-3) by (simp add: b updateETF_def emit_def)
qed

lemma docNoTicker_absent: "docFind docNoTicker tickerSelector = []"
  by code_simp

lemma docNbspTicker_text:
  "Text docNbspTicker (docFind docNbspTicker tickerSelector) = [CHR 0xC2, CHR 0xA0]"
  by code_simp

lemma docNbspTicker_blank:
  "TrimSpace (Text docNbspTicker (docFind docNbspTicker tickerSelector)) = []"
  by code_simp

lemma docBlankTicker_blank:
  "TrimSpace (Text docBlankTicker (docFind docBlankTicker tickerSelector)) = []"
  by code_simp

theorem missing_ticker_no_upsert_witness:
  "docFind docNoTicker tickerSelector = [] \<and>
   buildETF noGeo docNoTicker = Inl NotFoundName \<and>
   trace (updateETF (serving docNoTicker [''/fund/AAA'']) ''https://www.ssga.com'' ''/fund/AAA''
            emptyState) =
     [LogCouldNotBuildETF NotFoundName ''https://www.ssga.com/fund/AAA''] \<and>
   rows (updateETF (serving docNoTicker [''/fund/AAA'']) ''https://www.ssga.com'' ''/fund/AAA''
            emptyState) = [] \<and>
   TrimSpace (Text docBlankTicker (docFind docBlankTicker tickerSelector)) = [] \<and>
   buildETF noGeo docBlankTicker = Inl NotFoundName \<and>
   trace (updateETF (serving docBlankTicker [''/fund/AAA'']) ''https://www.ssga.com''
            ''/fund/AAA'' emptyState) =
     [LogCouldNotBuildETF NotFoundName ''https://www.ssga.com/fund/AAA''] \<and>
   Text docNbspTicker (docFind docNbspTicker tickerSelector) = [CHR 0xC2, CHR 0xA0] \<and>
   buildETF noGeo docNbspTicker = Inl NotFoundName \<and>
   trace (updateETF (serving docNbspTicker [''/fund/AAA'']) ''https://www.ssga.com''
            ''/fund/AAA'' emptyState) =
     [LogCouldNotBuildETF NotFoundName ''https://www.ssga.com/fund/AAA''] \<and>
   rows (updateETF (serving docNbspTicker [''/fund/AAA'']) ''https://www.ssga.com''
            ''/fund/AAA'' emptyState) = []"
proof -
  have g: "httpGet (serving doc [''/fund/AAA'']) (''https://www.ssga.com'' @ ''/fund/AAA'') =
      Inr (Response (Inr ''<html>''))" for doc
    by (simp add: serving_def)
  have r: "Body (Response (Inr ''<html>'')) = Inr ''<html>''" by simp
  have d: "newDocumentFromReader (serving doc [''/fund/AAA'']) ''<html>'' = Inr doc" for doc
    by (simp add: serving_def)
  have u: "jsonUnmarshal (serving doc [''/fund/AAA'']) = noGeo" for doc
    by (simp add: serving_def)
  show ?thesis
    using missing_ticker_no_upsert [OF g r d disjI1 [OF docNoTicker_absent], of emptyState]
      missing_ticker_no_upsert [OF g r d disjI2 [OF docBlankTicker_blank], of emptyState]
      missing_ticker_no_upsert [OF g r d disjI2 [OF docNbspTicker_blank], of emptyState]
    by (simp add: u docNoTicker_absent docBlankTicker_blank docNbspTicker_blank
        docNbspTicker_text emptyState_def)
qed

section \<open>Serialization\<close>

text \<open>
  Claim C10. The three optional sequences of a record are not serialized alike: when the
  sector sequence is nil or empty, the payload has no "sectors" key at all, while nil
  holdings and nil countries are serialized as null under "top_holdings" and
  "countries" (and empty ones as empty arrays); non-empty sectors are serialized as an
  array under "sectors".
\<close>

theorem ToJson_sectors_omitted_others_null:
  "((Sectors m = None \<or> Sectors m = Some []) \<longrightarrow>
      field m ''sectors'' = None \<and> ''sectors'' \<notin> fst ` set (ToJsonFields m)) \<and>
   (\<forall>xs. Sectors m = Some xs \<and> xs \<noteq> [] \<longrightarrow>
      field m ''sectors'' = Some (JArray (map encWeightData xs))) \<and>
   (TopHoldings m = None \<longrightarrow> field m ''top_holdings'' = Some JNull) \<and>
   (TopHoldings m = Some [] \<longrightarrow> field m ''top_holdings'' = Some (JArray [])) \<and>
   (Countries m = None \<longrightarrow> field m ''countries'' = Some JNull) \<and>
   (Countries m = Some [] \<longrightarrow> field m ''countries'' = Some (JArray [])) \<and>
   ToJson m = JObject (ToJsonFields m)"
  by (auto simp: field_def ToJsonFields_def ToJson_def len_def encSlice_def)

theorem ToJson_sectors_omitted_others_null_witness:
  "Sectors bareRecord = Some [] \<and> TopHoldings bareRecord = None \<and>
   Countries bareRecord = None \<and>
   field bareRecord ''sectors'' = None \<and>
   field bareRecord ''top_holdings'' = Some JNull \<and>
   field bareRecord ''countries'' = Some JNull \<and>
   field listedRecord ''sectors'' =
     Some (JArray [JObject [(''name'', JString ''Energy''), (''weight'', JString ''10%'')]]) \<and>
   field listedRecord ''top_holdings'' = Some (JArray []) \<and>
   field listedRecord ''countries'' = Some (JArray [])"
proof -
  have s: "Sectors bareRecord = Some []" and h: "TopHoldings bareRecord = None"
    and c: "Countries bareRecord = None"
    by (simp_all add: bareRecord_def)
  have s': "Sectors listedRecord = Some [\<lparr>wName = ''Energy'', wWeight = ''10%''\<rparr>]"
    and h': "TopHoldings listedRecord = Some []"
    and c': "Countries listedRecord = Some []"
    by (simp_all add: listedRecord_def)
  have e: "map encWeightData [\<lparr>wName = ''Energy'', wWeight = ''10%''\<rparr>] =
      [JObject [(''name'', JString ''Energy''), (''weight'', JString ''10%'')]]"
    by (simp add: encWeightData_def)
  have a: "field bareRecord ''sectors'' = None \<and>
   field bareRecord ''top_holdings'' = Some JNull \<and>
   field bareRecord ''countries'' = Some JNull"
    using ToJson_sectors_omitted_others_null [of bareRecord] s h c by blast
  have b: "field listedRecord ''sectors'' =
     Some (JArray (map encWeightData [\<lparr>wName = ''Energy'', wWeight = ''10%''\<rparr>])) \<and>
   field listedRecord ''top_holdings'' = Some (JArray []) \<and>
   field listedRecord ''countries'' = Some (JArray [])"
    using ToJson_sectors_omitted_others_null [of listedRecord] s' h' c' by blast
  show ?thesis using a b s h c unfolding e by blast
qed

section \<open>The batch: failures of items\<close>

lemma updateETF_rows_failed:
  "stored w host p = None \<Longrightarrow>
   rows (updateETF w host p st) = rows st \<and>
   (\<exists>evs err. trace (updateETF w host p st) = trace st @ evs \<and>
      last evs \<in> {LogError err, LogCouldNotBuildETF err (host @ p),
                   LogCouldNotUpsertETF err (host @ p)} \<and>
      evs \<noteq> [])"
  by (auto simp: stored_def updateETF_def Upsert_def emit_def Let_def
      split: sum.splits option.splits)

lemma rows_updateETF_cong:
  "rows st1 = rows st2 \<Longrightarrow> rows (updateETF w host p st1) = rows (updateETF w host p st2)"
  by (auto simp: updateETF_def Upsert_def emit_def Let_def split: sum.splits option.splits)

lemma rows_fold_cong:
  "rows st1 = rows st2 \<Longrightarrow>
   rows (fold (updateETF w host) ps st1) = rows (fold (updateETF w host) ps st2)"
proof (induction ps arbitrary: st1 st2)
  case Nil
  then show ?case by simp
next
  case (Cons p ps)
  show ?case
    using Cons.IH [OF rows_updateETF_cong [OF Cons.prems]] by simp
qed

lemma rows_fold_filter:
  "rows (fold (updateETF w host) ps st) =
   rows (fold (updateETF w host) (filter (\<lambda>p. stored w host p \<noteq> None) ps) st)"
proof (induction ps arbitrary: st)
  case Nil
  then show ?case by simp
next
  case (Cons p ps)
  show ?case
  proof (cases "stored w host p")
    case None
    have "rows (updateETF w host p st) = rows st"
      using updateETF_rows_failed [OF None] by blast
    then have "rows (fold (updateETF w host) ps (updateETF w host p st)) =
               rows (fold (updateETF w host) ps st)"
      by (rule rows_fold_cong)
    then show ?thesis using None Cons.IH by simp
  next
    case (Some etf)
    then show ?thesis using Cons.IH by simp
  qed
qed

text \<open>
  Claim C6. Once discovery has given its paths, the batch run reports success whatever
  the items do, and the table it leaves is the one it would leave had the failing items
  not been in the batch. An item that fails at any stage (request, reading of the body,
  parsing, extraction or upsert) leaves the table as it was, and the last event it adds
  is a log line with the error. The batch run reports an error exactly when discovery
  fails.
\<close>

theorem item_failures_isolated:
  "(getPaths w = Inr ps \<longrightarrow>
      UpdateData w host st = (None, fold (updateETF w host) ps st) \<and>
      rows (fold (updateETF w host) ps st) =
        rows (fold (updateETF w host) (filter (\<lambda>p. stored w host p \<noteq> None) ps) st)) \<and>
   (stored w host p = None \<longrightarrow>
      rows (updateETF w host p st) = rows st \<and>
      (\<exists>evs err. trace (updateETF w host p st) = trace st @ evs \<and>
         last evs \<in> {LogError err, LogCouldNotBuildETF err (host @ p),
                      LogCouldNotUpsertETF err (host @ p)} \<and>
         evs \<noteq> [])) \<and>
   (fst (UpdateData w host st) \<noteq> None \<longleftrightarrow> (\<exists>err. getPaths w = Inl err))"
proof -
  have a: "getPaths w = Inr ps \<longrightarrow>
      UpdateData w host st = (None, fold (updateETF w host) ps st) \<and>
      rows (fold (updateETF w host) ps st) =
        rows (fold (updateETF w host) (filter (\<lambda>p. stored w host p \<noteq> None) ps) st)"
    using rows_fold_filter [of w host ps st] by (simp add: UpdateData_def)
  have c: "fst (UpdateData w host st) \<noteq> None \<longleftrightarrow> (\<exists>err. getPaths w = Inl err)"
    by (cases "getPaths w") (simp_all add: UpdateData_def)
  show ?thesis
    using a c updateETF_rows_failed [of w host p st] by blast
qed

lemma timeoutAtBBB_stored_BBB: "stored timeoutAtBBB ''https://www.ssga.com'' ''/fund/BBB'' = None"
  by (simp add: stored_def timeoutAtBBB_def serving_def)

lemma timeoutAtBBB_run:
  "map fst (rows (fold (updateETF timeoutAtBBB ''https://www.ssga.com'')
                    [''/fund/AAA'', ''/fund/BBB''] emptyState)) = [''AAA'']"
  by code_simp

text \<open>
  Two paths are discovered; the request for the second times out. The run reports
  success, the record of the first is stored and the second leaves nothing.
\<close>

theorem item_failures_isolated_witness:
  "getPaths timeoutAtBBB = Inr [''/fund/AAA'', ''/fund/BBB''] \<and>
   stored timeoutAtBBB ''https://www.ssga.com'' ''/fund/BBB'' = None \<and>
   fst (UpdateData timeoutAtBBB ''https://www.ssga.com'' emptyState) = None \<and>
   map fst (rows (snd (UpdateData timeoutAtBBB ''https://www.ssga.com'' emptyState))) = [''AAA''] \<and>
   rows (updateETF timeoutAtBBB ''https://www.ssga.com'' ''/fund/BBB'' emptyState) = []"
proof -
  have g: "getPaths timeoutAtBBB = Inr [''/fund/AAA'', ''/fund/BBB'']"
    by (simp add: timeoutAtBBB_def serving_def)
  show ?thesis
    using item_failures_isolated [of timeoutAtBBB "[''/fund/AAA'', ''/fund/BBB'']"
        "''https://www.ssga.com''" emptyState "''/fund/BBB''"]
      g timeoutAtBBB_stored_BBB timeoutAtBBB_run
    by (simp add: emptyState_def)
qed

section \<open>The scheduler\<close>

lemma retryLoop_exhausted: "retryLoop ws host 3 k st = (k, st)"
  by (subst retryLoop.simps) (simp add: retries_def)

lemma retryLoop_success:
  "i < 3 \<Longrightarrow> getPaths (ws k) = Inr ps \<Longrightarrow>
   retryLoop ws host i k st =
     (Suc k, emit [LogInfoCompleted] (fold (updateETF (ws k) host) ps st))"
  by (subst retryLoop.simps) (simp add: retries_def UpdateData_ran)

lemma retryLoop_failure:
  "i < 2 \<Longrightarrow> getPaths (ws k) = Inl err \<Longrightarrow>
   retryLoop ws host i k st =
     retryLoop ws host (Suc i) (Suc k)
       (emit [LogAttemptFailed (Suc i) (FailedToGetDataPaths err), LogInfoRetrying, Sleep 1] st)"
  by (subst retryLoop.simps) (simp add: retries_def UpdateData_failed emit_emit)

lemma retryLoop_last_failure:
  "getPaths (ws k) = Inl err \<Longrightarrow>
   retryLoop ws host 2 k st =
     (Suc k, emit [LogAttemptFailed 3 (FailedToGetDataPaths err)] st)"
  by (subst retryLoop.simps) (simp add: retries_def UpdateData_failed retryLoop_exhausted)

lemma retryLoop_calls: "fst (retryLoop ws host i k st) \<le> k + (3 - i)"
proof (induction ws host i k st rule: retryLoop.induct)
  case (1 ws host i k st)
  show ?case
  proof (cases "i < retries")
    case False
    then show ?thesis by (subst retryLoop.simps) simp
  next
    case True
    obtain r st1 where u: "UpdateData (ws k) host st = (r, st1)"
      by (cases "UpdateData (ws k) host st")
    show ?thesis
    proof (cases r)
      case None
      then show ?thesis
        using True u by (subst retryLoop.simps) (simp add: retries_def)
    next
      case (Some err)
      let ?st3 = "if i < retries - 1
                   then emit [LogInfoRetrying, Sleep 1] (emit [LogAttemptFailed (i + 1) err] st1)
                   else emit [LogAttemptFailed (i + 1) err] st1"
      have ih: "fst (retryLoop ws host (i + 1) (Suc k) ?st3) \<le> Suc k + (3 - (i + 1))"
        using "1.IH" [OF True u [symmetric] Some refl refl] .
      have eq: "retryLoop ws host i k st = retryLoop ws host (i + 1) (Suc k) ?st3"
        using True u Some by (subst retryLoop.simps) (simp add: Let_def)
      have "i < 3" using True by (simp add: retries_def)
      then have "Suc k + (3 - (i + 1)) = k + (3 - i)" by arith
      with ih eq show ?thesis by simp
    qed
  qed
qed

lemma schedule_status: "fst (schedule ws host ticks k st) = AwaitingTick"
proof (induction ticks arbitrary: k st)
  case 0
  then show ?case by simp
next
  case (Suc ticks)
  then show ?case by (simp split: prod.splits)
qed

lemma trace_updateETF: "\<exists>evs. trace (updateETF w host p st) = trace st @ evs"
  by (auto simp: updateETF_def Upsert_def emit_def Let_def split: sum.splits option.splits)

lemma trace_fold_updateETF: "\<exists>evs. trace (fold (updateETF w host) ps st) = trace st @ evs"
proof (induction ps arbitrary: st)
  case Nil
  then show ?case by simp
next
  case (Cons p ps)
  obtain e1 where e1: "trace (updateETF w host p st) = trace st @ e1"
    using trace_updateETF by blast
  obtain e2 where "trace (fold (updateETF w host) ps (updateETF w host p st)) =
      trace (updateETF w host p st) @ e2"
    using Cons.IH by blast
  then have "trace (fold (updateETF w host) (p # ps) st) = trace st @ (e1 @ e2)"
    by (simp add: e1)
  then show ?case by blast
qed

lemma trace_UpdateData: "\<exists>evs. trace (snd (UpdateData w host st)) = trace st @ evs"
  using trace_fold_updateETF [of w host _ st]
  by (cases "getPaths w") (simp_all add: UpdateData_def)

lemma trace_retryLoop: "\<exists>evs. trace (snd (retryLoop ws host i k st)) = trace st @ evs"
proof (induction ws host i k st rule: retryLoop.induct)
  case (1 ws host i k st)
  show ?case
  proof (cases "i < retries")
    case False
    then show ?thesis by (subst retryLoop.simps) simp
  next
    case True
    obtain r st1 where u: "UpdateData (ws k) host st = (r, st1)"
      by (cases "UpdateData (ws k) host st")
    obtain e1 where e1: "trace st1 = trace st @ e1"
      using trace_UpdateData [of "ws k" host st] u by auto
    show ?thesis
    proof (cases r)
      case None
      have "trace (snd (retryLoop ws host i k st)) = trace st @ (e1 @ [LogInfoCompleted])"
        using True u None by (subst retryLoop.simps) (simp add: emit_def e1)
      then show ?thesis by blast
    next
      case (Some err)
      let ?st3 = "if i < retries - 1
                   then emit [LogInfoRetrying, Sleep 1] (emit [LogAttemptFailed (i + 1) err] st1)
                   else emit [LogAttemptFailed (i + 1) err] st1"
      obtain e3 where e3: "trace (snd (retryLoop ws host (i + 1) (Suc k) ?st3)) = trace ?st3 @ e3"
        using "1.IH" [OF True u [symmetric] Some refl refl] by blast
      have "\<exists>e2. trace ?st3 = trace st1 @ e2"
        by (cases "i < retries - 1") (simp_all add: emit_def)
      then obtain e2 where e2: "trace ?st3 = trace st1 @ e2"
        by blast
      have eq: "retryLoop ws host i k st = retryLoop ws host (i + 1) (Suc k) ?st3"
        using True u Some by (subst retryLoop.simps) (simp add: Let_def)
      have "trace (snd (retryLoop ws host i k st)) = trace st @ (e1 @ e2 @ e3)"
        unfolding eq e3 e2 e1 by simp
      then show ?thesis by blast
    qed
  qed
qed

lemma trace_schedule: "\<exists>evs. trace (snd (schedule ws host ticks k st)) = trace st @ evs"
proof (induction ticks arbitrary: k st)
  case 0
  then show ?case by simp
next
  case (Suc ticks)
  obtain k1 st1 where r: "retryLoop ws host 0 k (emit [Tick] st) = (k1, st1)"
    by (cases "retryLoop ws host 0 k (emit [Tick] st)")
  obtain e1 where "trace st1 = trace (emit [Tick] st) @ e1"
    using trace_retryLoop [of ws host 0 k "emit [Tick] st"] r by auto
  then have e1: "trace st1 = trace st @ (Tick # e1)"
    by (simp add: emit_def)
  obtain e2 where "trace (snd (schedule ws host ticks k1 st1)) = trace st1 @ e2"
    using Suc.IH by blast
  then have "trace (snd (schedule ws host (Suc ticks) k st)) = trace st @ (Tick # e1 @ e2)"
    by (simp add: r e1)
  then show ?case by blast
qed

lemma schedule_ticks: "0 < ticks \<Longrightarrow> Tick \<in> set (trace (snd (schedule ws host ticks k st)))"
proof (cases ticks)
  case 0
  assume "0 < ticks"
  with 0 show ?thesis by simp
next
  case (Suc n)
  obtain k1 st1 where r: "retryLoop ws host 0 k (emit [Tick] st) = (k1, st1)"
    by (cases "retryLoop ws host 0 k (emit [Tick] st)")
  obtain e1 where "trace st1 = trace (emit [Tick] st) @ e1"
    using trace_retryLoop [of ws host 0 k "emit [Tick] st"] r by auto
  then have e1: "trace st1 = trace st @ (Tick # e1)"
    by (simp add: emit_def)
  obtain e2 where "trace (snd (schedule ws host n k1 st1)) = trace st1 @ e2"
    using trace_schedule by blast
  then show ?thesis
    by (simp add: Suc r e1)
qed

text \<open>
  Claim C7. In a scheduled cycle (the loop that a tick starts, \<open>k\<close> calls of the update
  having been made before), at most 3 attempts are made. An attempt that succeeds ends
  the cycle: the remaining attempts are skipped. After a failed first or second attempt
  the scheduler logs the failure and sleeps 1 hour before the next attempt. When all 3
  attempts fail, the third failure is logged, nothing else happens (no sleep, no exit),
  and the scheduler is in front of the ticker again, where it makes the next attempt only
  after the next tick; it never exits from there.
\<close>

theorem retry_policy:
  "fst (retryLoop ws host 0 k st) \<le> k + 3 \<and>
   (getPaths (ws k) = Inr ps \<longrightarrow>
      retryLoop ws host 0 k st =
        (k + 1, emit [LogInfoCompleted] (fold (updateETF (ws k) host) ps st))) \<and>
   (getPaths (ws k) = Inl e1 \<and> getPaths (ws (k + 1)) = Inr ps \<longrightarrow>
      retryLoop ws host 0 k st =
        (k + 2,
         emit [LogInfoCompleted]
           (fold (updateETF (ws (k + 1)) host) ps
              (emit [LogAttemptFailed 1 (FailedToGetDataPaths e1), LogInfoRetrying, Sleep 1] st)))) \<and>
   (getPaths (ws k) = Inl e1 \<and> getPaths (ws (k + 1)) = Inl e2 \<and> getPaths (ws (k + 2)) = Inr ps \<longrightarrow>
      retryLoop ws host 0 k st =
        (k + 3,
         emit [LogInfoCompleted]
           (fold (updateETF (ws (k + 2)) host) ps
              (emit [LogAttemptFailed 1 (FailedToGetDataPaths e1), LogInfoRetrying, Sleep 1,
                     LogAttemptFailed 2 (FailedToGetDataPaths e2), LogInfoRetrying, Sleep 1] st)))) \<and>
   (getPaths (ws k) = Inl e1 \<and> getPaths (ws (k + 1)) = Inl e2 \<and> getPaths (ws (k + 2)) = Inl e3 \<longrightarrow>
      retryLoop ws host 0 k st =
        (k + 3,
         emit [LogAttemptFailed 1 (FailedToGetDataPaths e1), LogInfoRetrying, Sleep 1,
               LogAttemptFailed 2 (FailedToGetDataPaths e2), LogInfoRetrying, Sleep 1,
               LogAttemptFailed 3 (FailedToGetDataPaths e3)] st) \<and>
      schedule ws host (Suc ticks) k st =
        schedule ws host ticks (k + 3)
          (emit [Tick,
                 LogAttemptFailed 1 (FailedToGetDataPaths e1), LogInfoRetrying, Sleep 1,
                 LogAttemptFailed 2 (FailedToGetDataPaths e2), LogInfoRetrying, Sleep 1,
                 LogAttemptFailed 3 (FailedToGetDataPaths e3)] st)) \<and>
   fst (schedule ws host ticks k st) = AwaitingTick"
proof -
  have a: "fst (retryLoop ws host 0 k st) \<le> k + 3"
    using retryLoop_calls [of ws host 0 k st] by simp
  have b: "getPaths (ws k) = Inr ps \<longrightarrow>
      retryLoop ws host 0 k st =
        (k + 1, emit [LogInfoCompleted] (fold (updateETF (ws k) host) ps st))"
    by (simp add: retryLoop_success)
  have c: "getPaths (ws k) = Inl e1 \<and> getPaths (ws (k + 1)) = Inr ps \<longrightarrow>
      retryLoop ws host 0 k st =
        (k + 2,
         emit [LogInfoCompleted]
           (fold (updateETF (ws (k + 1)) host) ps
              (emit [LogAttemptFailed 1 (FailedToGetDataPaths e1), LogInfoRetrying, Sleep 1] st)))"
    by (simp add: retryLoop_failure retryLoop_success)
  have d: "getPaths (ws k) = Inl e1 \<and> getPaths (ws (k + 1)) = Inl e2 \<and>
      getPaths (ws (k + 2)) = Inr ps \<longrightarrow>
      retryLoop ws host 0 k st =
        (k + 3,
         emit [LogInfoCompleted]
           (fold (updateETF (ws (k + 2)) host) ps
              (emit [LogAttemptFailed 1 (FailedToGetDataPaths e1), LogInfoRetrying, Sleep 1,
                     LogAttemptFailed 2 (FailedToGetDataPaths e2), LogInfoRetrying, Sleep 1] st)))"
    by (simp add: retryLoop_failure retryLoop_success emit_emit numeral_2_eq_2 numeral_3_eq_3)
  have e: "getPaths (ws k) = Inl e1 \<and> getPaths (ws (k + 1)) = Inl e2 \<and>
      getPaths (ws (k + 2)) = Inl e3 \<longrightarrow>
      retryLoop ws host 0 k st =
        (k + 3,
         emit [LogAttemptFailed 1 (FailedToGetDataPaths e1), LogInfoRetrying, Sleep 1,
               LogAttemptFailed 2 (FailedToGetDataPaths e2), LogInfoRetrying, Sleep 1,
               LogAttemptFailed 3 (FailedToGetDataPaths e3)] st)"
    using retryLoop_last_failure [of ws "Suc (Suc k)" e3 host]
    by (simp add: retryLoop_failure emit_emit numeral_2_eq_2 numeral_3_eq_3)
  have f: "getPaths (ws k) = Inl e1 \<and> getPaths (ws (k + 1)) = Inl e2 \<and>
      getPaths (ws (k + 2)) = Inl e3 \<longrightarrow>
      schedule ws host (Suc ticks) k st =
        schedule ws host ticks (k + 3)
          (emit [Tick,
                 LogAttemptFailed 1 (FailedToGetDataPaths e1), LogInfoRetrying, Sleep 1,
                 LogAttemptFailed 2 (FailedToGetDataPaths e2), LogInfoRetrying, Sleep 1,
                 LogAttemptFailed 3 (FailedToGetDataPaths e3)] st)"
    using retryLoop_last_failure [of ws "Suc (Suc k)" e3 host]
    by (simp add: retryLoop_failure emit_emit numeral_2_eq_2 numeral_3_eq_3)
  show ?thesis
    using a b c d e f schedule_status [of ws host ticks k st] by blast
qed

lemma recovering_getPaths:
  "k < n \<Longrightarrow> getPaths (recovering n k) = Inl (External ''could not launch playwright'')"
  "\<not> k < n \<Longrightarrow> getPaths (recovering n k) = Inr []"
  by (simp_all add: recovering_def noDiscovery_def serving_def)

text \<open>
  The first scheduled cycle (one call of the update made before it), with discovery
  working again at its first, second or third attempt, or at none: in the last case there
  are three attempts and two sleeps of one hour, and the scheduler waits for the next tick.
\<close>

theorem retry_policy_witness:
  "retryLoop (recovering 1) ''https://www.ssga.com'' 0 1 emptyState =
     (2, \<lparr>rows = [], trace = [LogInfoCompleted]\<rparr>) \<and>
   retryLoop (recovering 2) ''https://www.ssga.com'' 0 1 emptyState =
     (3, \<lparr>rows = [],
          trace =
            [LogAttemptFailed 1 (FailedToGetDataPaths (External ''could not launch playwright'')),
             LogInfoRetrying, Sleep 1, LogInfoCompleted]\<rparr>) \<and>
   retryLoop (recovering 3) ''https://www.ssga.com'' 0 1 emptyState =
     (4, \<lparr>rows = [],
          trace =
            [LogAttemptFailed 1 (FailedToGetDataPaths (External ''could not launch playwright'')),
             LogInfoRetrying, Sleep 1,
             LogAttemptFailed 2 (FailedToGetDataPaths (External ''could not launch playwright'')),
             LogInfoRetrying, Sleep 1, LogInfoCompleted]\<rparr>) \<and>
   retryLoop (recovering 4) ''https://www.ssga.com'' 0 1 emptyState =
     (4, \<lparr>rows = [],
          trace =
            [LogAttemptFailed 1 (FailedToGetDataPaths (External ''could not launch playwright'')),
             LogInfoRetrying, Sleep 1,
             LogAttemptFailed 2 (FailedToGetDataPaths (External ''could not launch playwright'')),
             LogInfoRetrying, Sleep 1,
             LogAttemptFailed 3 (FailedToGetDataPaths (External ''could not launch playwright''))]\<rparr>) \<and>
   fst (schedule (recovering 4) ''https://www.ssga.com'' 1 1 emptyState) = AwaitingTick"
  using retry_policy [of "recovering 1" "''https://www.ssga.com''" 1 emptyState "[]"
      "External ''could not launch playwright''" "External ''could not launch playwright''"
      "External ''could not launch playwright''" 0]
    retry_policy [of "recovering 2" "''https://www.ssga.com''" 1 emptyState "[]"
      "External ''could not launch playwright''" "External ''could not launch playwright''"
      "External ''could not launch playwright''" 0]
    retry_policy [of "recovering 3" "''https://www.ssga.com''" 1 emptyState "[]"
      "External ''could not launch playwright''" "External ''could not launch playwright''"
      "External ''could not launch playwright''" 0]
    retry_policy [of "recovering 4" "''https://www.ssga.com''" 1 emptyState "[]"
      "External ''could not launch playwright''" "External ''could not launch playwright''"
      "External ''could not launch playwright''" 1]
  by (simp add: recovering_getPaths emit_def emptyState_def)

text \<open>
  Claim C8. If the first update at the start of the process fails at the top level (that
  is, discovery fails), the scheduler logs the fatal failure and the process exits with
  status 1: no ticker is made and no tick is awaited, however long one follows it. If
  discovery succeeds, whatever the items do, the scheduler logs the success, makes the
  24-hour ticker and goes on to the recurring schedule, in which it awaits ticks and
  does not exit.
\<close>

theorem first_cycle:
  "(getPaths (ws 0) = Inl err \<longrightarrow>
      Run ws host ticks st =
        (Exited 1,
         emit [LogFatalInitialFailed (FailedToGetDataPaths err), ExitProcess 1] st)) \<and>
   (getPaths (ws 0) = Inr ps \<longrightarrow>
      Run ws host ticks st =
        schedule ws host ticks 1
          (emit [LogInfoCompleted, NewTicker 24] (fold (updateETF (ws 0) host) ps st)) \<and>
      fst (Run ws host ticks st) = AwaitingTick \<and>
      NewTicker 24 \<in> set (trace (snd (Run ws host ticks st))) \<and>
      (0 < ticks \<longrightarrow> Tick \<in> set (trace (snd (Run ws host ticks st)))))"
proof -
  have a: "getPaths (ws 0) = Inl err \<longrightarrow>
      Run ws host ticks st =
        (Exited 1,
         emit [LogFatalInitialFailed (FailedToGetDataPaths err), ExitProcess 1] st)"
    by (simp add: Run_def UpdateData_failed)
  have b: "getPaths (ws 0) = Inr ps \<longrightarrow>
      Run ws host ticks st =
        schedule ws host ticks 1
          (emit [LogInfoCompleted, NewTicker 24] (fold (updateETF (ws 0) host) ps st))"
    by (simp add: Run_def UpdateData_ran)
  let ?st1 = "emit [LogInfoCompleted, NewTicker 24] (fold (updateETF (ws 0) host) ps st)"
  obtain evs where "trace (snd (schedule ws host ticks 1 ?st1)) = trace ?st1 @ evs"
    using trace_schedule by blast
  then have c: "NewTicker 24 \<in> set (trace (snd (schedule ws host ticks 1 ?st1)))"
    by (simp add: emit_def)
  have d: "0 < ticks \<longrightarrow> Tick \<in> set (trace (snd (schedule ws host ticks 1 ?st1)))"
    using schedule_ticks by blast
  show ?thesis
    using a b c d schedule_status [of ws host ticks 1 ?st1] by auto
qed

theorem first_cycle_witness:
  "Run (recovering 1) ''https://www.ssga.com'' 7 emptyState =
     (Exited 1,
      \<lparr>rows = [],
       trace =
         [LogFatalInitialFailed (FailedToGetDataPaths (External ''could not launch playwright'')),
          ExitProcess 1]\<rparr>) \<and>
   fst (Run (recovering 0) ''https://www.ssga.com'' 7 emptyState) = AwaitingTick \<and>
   NewTicker 24 \<in> set (trace (snd (Run (recovering 0) ''https://www.ssga.com'' 7 emptyState))) \<and>
   Tick \<in> set (trace (snd (Run (recovering 0) ''https://www.ssga.com'' 7 emptyState)))"
proof -
  have a: "getPaths (recovering 1 0) = Inl (External ''could not launch playwright'')"
    and b: "getPaths (recovering 0 0) = Inr []"
    by (simp_all add: recovering_getPaths)
  have z: "(0::nat) < 7" by simp
  have "Run (recovering 1) ''https://www.ssga.com'' 7 emptyState =
     (Exited 1,
      emit [LogFatalInitialFailed (FailedToGetDataPaths (External ''could not launch playwright'')),
            ExitProcess 1] emptyState)"
    using first_cycle [of "recovering 1" "External ''could not launch playwright''"
      "''https://www.ssga.com''" 7 emptyState "[]"] a by blast
  then have x: "Run (recovering 1) ''https://www.ssga.com'' 7 emptyState =
     (Exited 1,
      \<lparr>rows = [],
       trace =
         [LogFatalInitialFailed (FailedToGetDataPaths (External ''could not launch playwright'')),
          ExitProcess 1]\<rparr>)"
    by (simp add: emit_def emptyState_def)
  show ?thesis
    using x first_cycle [of "recovering 0" "External ''could not launch playwright''"
      "''https://www.ssga.com''" 7 emptyState "[]"] b z
    by blast
qed

section \<open>The batch: bounded fan-out\<close>

lemma orch_inv_initial: "orch_inv P (initial P)"
  by (simp add: orch_inv_def places_inv_def counts_inv_def pc_inv_def initial_def)

lemma places_finite:
  assumes "finite P" "places_inv P s"
  shows "finite (pending s) \<and> finite (running s) \<and> finite (releasing s) \<and>
        finite (signalling s) \<and> finite (finished s) \<and> finite (held (pc s))"
proof -
  have "pending s \<union> held (pc s) \<union> running s \<union> releasing s \<union> signalling s \<union> finished s = P"
    using assms(2) by (simp add: places_inv_def)
  then have "finite (pending s \<union> held (pc s) \<union> running s \<union> releasing s \<union> signalling s \<union> finished s)"
    using assms(1) by simp
  then show ?thesis
    by simp
qed

lemma step_places:
  assumes "places_inv P s" "step s t"
  shows "places_inv P t"
  using assms(2)
proof cases
  case (pick p)
  with assms(1) show ?thesis unfolding places_inv_def by (simp; blast)
next
  case (acquire p)
  with assms(1) show ?thesis unfolding places_inv_def by simp
next
  case (spawn p)
  with assms(1) show ?thesis unfolding places_inv_def by (simp; blast)
next
  case drained
  with assms(1) show ?thesis unfolding places_inv_def by simp
next
  case (complete p)
  with assms(1) show ?thesis unfolding places_inv_def by (simp; blast)
next
  case (release p)
  with assms(1) show ?thesis unfolding places_inv_def by (simp; blast)
next
  case (signal p)
  with assms(1) show ?thesis unfolding places_inv_def by (simp; blast)
next
  case return
  with assms(1) show ?thesis unfolding places_inv_def by simp
qed


lemma step_counts:
  assumes fin: "finite P" and pl: "places_inv P s" and cn: "counts_inv s" and st: "step s t"
  shows "counts_inv t"
  using st
proof cases
  case (pick p)
  with cn show ?thesis unfolding counts_inv_def by simp
next
  case (acquire p)
  with cn show ?thesis unfolding counts_inv_def by simp
next
  case (spawn p)
  have f: "finite (running s)" using places_finite [OF fin pl] by simp
  have n: "p \<notin> running s" using pl spawn(2) unfolding places_inv_def by auto
  have c: "card (insert p (running s)) = Suc (card (running s))" using f n by simp
  from cn spawn show ?thesis unfolding counts_inv_def by (simp add: c)
next
  case drained
  with cn show ?thesis unfolding counts_inv_def by simp
next
  case (complete p)
  have f: "finite (running s)" "finite (releasing s)"
    using places_finite [OF fin pl] by simp_all
  have n: "p \<notin> releasing s" using pl complete(2) unfolding places_inv_def by auto
  have "0 < card (running s)" using f complete(2) by (auto simp: card_gt_0_iff)
  then have c: "card (running s - {p}) = card (running s) - 1"
    "card (insert p (releasing s)) = Suc (card (releasing s))" "1 \<le> card (running s)"
    using f n complete(2) by simp_all
  from cn complete(1) c show ?thesis
    unfolding counts_inv_def by (simp split: mainpc.splits)
next
  case (release p)
  have f: "finite (releasing s)" "finite (signalling s)"
    using places_finite [OF fin pl] by simp_all
  have n: "p \<notin> signalling s" using pl release(2) unfolding places_inv_def by auto
  have "0 < card (releasing s)" using f release(2) by (auto simp: card_gt_0_iff)
  then have c: "card (releasing s - {p}) = card (releasing s) - 1"
    "card (insert p (signalling s)) = Suc (card (signalling s))" "1 \<le> card (releasing s)"
    using f n release(2) by simp_all
  from cn release(1,3) c show ?thesis
    unfolding counts_inv_def by (auto split: mainpc.splits)
next
  case (signal p)
  have f: "finite (signalling s)"
    using places_finite [OF fin pl] by simp_all
  have "0 < card (signalling s)" using f signal(2) by (auto simp: card_gt_0_iff)
  then have c: "card (signalling s - {p}) = card (signalling s) - 1" "1 \<le> card (signalling s)"
    using f signal(2) by simp_all
  from cn signal(1) c show ?thesis
    unfolding counts_inv_def by (simp split: mainpc.splits)
next
  case return
  with cn show ?thesis unfolding counts_inv_def by simp
qed

lemma step_pc:
  assumes fin: "finite P" and pl: "places_inv P s" and cn: "counts_inv s"
    and pi: "pc_inv P s" and st: "step s t"
  shows "pc_inv P t"
  using st
proof cases
  case (pick p)
  with pi show ?thesis unfolding pc_inv_def by simp
next
  case (acquire p)
  with pi show ?thesis unfolding pc_inv_def by simp
next
  case (spawn p)
  with pi show ?thesis unfolding pc_inv_def by simp
next
  case drained
  with pi show ?thesis unfolding pc_inv_def by simp
next
  case (complete p)
  with pi pl show ?thesis unfolding pc_inv_def places_inv_def by auto
next
  case (release p)
  with pi pl show ?thesis unfolding pc_inv_def places_inv_def by auto
next
  case (signal p)
  with pi pl show ?thesis unfolding pc_inv_def places_inv_def by auto
next
  case return
  have f: "finite (running s)" "finite (releasing s)" "finite (signalling s)"
    using places_finite [OF fin pl] by simp_all
  have "card (running s) + card (releasing s) + card (signalling s) = 0"
    using cn return(2,3) unfolding counts_inv_def by simp
  then have e: "running s = {}" "releasing s = {}" "signalling s = {}"
    using f by simp_all
  have "pending s = {}" using pi return(2) unfolding pc_inv_def by simp
  then have "finished s = P"
    using pl e return(2) unfolding places_inv_def by simp
  with pi return show ?thesis unfolding pc_inv_def by simp
qed

lemma step_orch_inv:
  "finite P \<Longrightarrow> orch_inv P s \<Longrightarrow> step s t \<Longrightarrow> orch_inv P t"
  unfolding orch_inv_def
  using step_places step_counts step_pc by blast

lemma reachable_orch_inv:
  assumes "finite P" "reachable P s"
  shows "orch_inv P s"
  using assms(2) unfolding reachable_def
proof (induction rule: rtranclp_induct)
  case base
  show ?case by (rule orch_inv_initial)
next
  case (step y z)
  then show ?case using step_orch_inv [OF assms(1)] by blast
qed


lemma step_remaining:
  assumes fin: "finite P" and pl: "places_inv P s" and st: "step s t"
  shows "Suc (remaining t) = remaining s"
  using st
proof cases
  case (pick p)
  have f: "finite (pending s)" using places_finite [OF fin pl] by simp
  have "0 < card (pending s)" using f pick(3) by (auto simp: card_gt_0_iff)
  then have c: "card (pending s - {p}) = card (pending s) - 1" "1 \<le> card (pending s)"
    using f pick(3) by simp_all
  from pick(1,2) c show ?thesis unfolding remaining_def by simp
next
  case (acquire p)
  then show ?thesis unfolding remaining_def by simp
next
  case (spawn p)
  have f: "finite (running s)" using places_finite [OF fin pl] by simp
  have n: "p \<notin> running s" using pl spawn(2) unfolding places_inv_def by auto
  have c: "card (insert p (running s)) = Suc (card (running s))" using f n by simp
  from spawn c show ?thesis unfolding remaining_def by simp
next
  case drained
  then show ?thesis unfolding remaining_def by simp
next
  case (complete p)
  have f: "finite (running s)" "finite (releasing s)"
    using places_finite [OF fin pl] by simp_all
  have n: "p \<notin> releasing s" using pl complete(2) unfolding places_inv_def by auto
  have "0 < card (running s)" using f complete(2) by (auto simp: card_gt_0_iff)
  then have c: "card (running s - {p}) = card (running s) - 1"
    "card (insert p (releasing s)) = Suc (card (releasing s))" "1 \<le> card (running s)"
    using f n complete(2) by simp_all
  from complete(1) c show ?thesis unfolding remaining_def by simp
next
  case (release p)
  have f: "finite (releasing s)" "finite (signalling s)"
    using places_finite [OF fin pl] by simp_all
  have n: "p \<notin> signalling s" using pl release(2) unfolding places_inv_def by auto
  have "0 < card (releasing s)" using f release(2) by (auto simp: card_gt_0_iff)
  then have c: "card (releasing s - {p}) = card (releasing s) - 1"
    "card (insert p (signalling s)) = Suc (card (signalling s))" "1 \<le> card (releasing s)"
    using f n release(2) by simp_all
  from release(1) c show ?thesis unfolding remaining_def by simp
next
  case (signal p)
  have f: "finite (signalling s)"
    using places_finite [OF fin pl] by simp_all
  have "0 < card (signalling s)" using f signal(2) by (auto simp: card_gt_0_iff)
  then have c: "card (signalling s - {p}) = card (signalling s) - 1" "1 \<le> card (signalling s)"
    using f signal(2) by simp_all
  from signal(1) c show ?thesis unfolding remaining_def by simp
next
  case return
  then show ?thesis unfolding remaining_def by simp
qed

lemma progress:
  assumes fin: "finite P" and inv: "orch_inv P s" and nr: "pc s \<noteq> Returned"
  shows "\<exists>t. step s t"
proof -
  have pl: "places_inv P s" and cn: "counts_inv s" and pi: "pc_inv P s"
    using inv by (simp_all add: orch_inv_def)
  have f: "finite (running s)" "finite (releasing s)" "finite (signalling s)"
    using places_finite [OF fin pl] by simp_all
  have sem: "card (running s) + card (releasing s) \<le> semaphore s"
    using cn unfolding counts_inv_def by simp
  have rel: "releasing s \<noteq> {} \<Longrightarrow> \<exists>t. step s t"
  proof -
    assume "releasing s \<noteq> {}"
    then obtain p where p: "p \<in> releasing s" by blast
    then have "0 < card (releasing s)" using f by (auto simp: card_gt_0_iff)
    then have "0 < semaphore s" using sem by simp
    then show ?thesis using step.release [OF p] by blast
  qed
  have run: "running s \<noteq> {} \<Longrightarrow> \<exists>t. step s t"
    using step.complete by blast
  have sig: "signalling s \<noteq> {} \<Longrightarrow> \<exists>t. step s t"
    using step.signal by blast
  show ?thesis
  proof (cases "pc s")
    case AtLoop
    show ?thesis
    proof (cases "pending s = {}")
      case True
      then show ?thesis using step.drained [OF AtLoop] by blast
    next
      case False
      then obtain p where "p \<in> pending s" by blast
      then show ?thesis using step.pick [OF AtLoop] by blast
    qed
  next
    case (Added p)
    show ?thesis
    proof (cases "semaphore s < semaphoreCapacity")
      case True
      then show ?thesis using step.acquire [OF Added] by blast
    next
      case False
      then have "semaphore s = 50"
        using cn unfolding counts_inv_def semaphoreCapacity_def by simp
      moreover have "semaphore s = card (running s) + card (releasing s)"
        using cn Added unfolding counts_inv_def by simp
      ultimately have "0 < card (running s) + card (releasing s)"
        by simp
      then have "running s \<noteq> {} \<or> releasing s \<noteq> {}" by auto
      then show ?thesis using run rel by blast
    qed
  next
    case (Acquired p)
    then show ?thesis using step.spawn by blast
  next
    case Waiting
    show ?thesis
    proof (cases "wg s = 0")
      case True
      then show ?thesis using step.return [OF Waiting] by blast
    next
      case False
      moreover have "wg s = int (card (running s) + card (releasing s) + card (signalling s))"
        using cn Waiting unfolding counts_inv_def by simp
      ultimately have "0 < card (running s) + card (releasing s) + card (signalling s)"
        by linarith
      then have "running s \<noteq> {} \<or> releasing s \<noteq> {} \<or> signalling s \<noteq> {}" by auto
      then show ?thesis using run rel sig by blast
    qed
  next
    case Returned
    with nr show ?thesis by simp
  qed
qed

lemma returned_all_finished:
  assumes inv: "orch_inv P s" and r: "pc s = Returned"
  shows "finished s = P \<and> pending s = {} \<and> running s = {} \<and> releasing s = {} \<and>
         signalling s = {}"
proof -
  have pl: "places_inv P s" and pi: "pc_inv P s"
    using inv by (simp_all add: orch_inv_def)
  have fp: "finished s = P" and pe: "pending s = {}"
    using pi r unfolding pc_inv_def by simp_all
  have "(pending s \<union> held (pc s) \<union> running s \<union> releasing s \<union> signalling s) \<inter> finished s = {}"
    and "pending s \<union> held (pc s) \<union> running s \<union> releasing s \<union> signalling s \<union> finished s = P"
    using pl unfolding places_inv_def by simp_all
  then have "running s = {} \<and> releasing s = {} \<and> signalling s = {}"
    unfolding fp by blast
  with fp pe show ?thesis by simp
qed

text \<open>
  Claim C5. For every finite set of discovered paths, in every state that the batch run
  can reach: at most \<open>semaphoreCapacity\<close> (50) workers are running their item, each of them
  holding a slot of the channel, which never holds more than 50; a worker is started only
  after its slot has been acquired, and a worker whose item has completed, with or
  without success, can always release its slot (the release never blocks); when the
  batch run has returned, every discovered path is finished and no worker is left. The
  run cannot get stuck before it returns, and every step brings it one step nearer to
  its return, so that it returns after finitely many steps, however large the set.
\<close>

theorem bounded_fanout:
  assumes "finite P" and "reachable P s"
  shows "card (running s) \<le> semaphoreCapacity \<and>
         card (running s) + card (releasing s) \<le> semaphore s \<and>
         semaphore s \<le> semaphoreCapacity \<and>
         (pc s = Returned \<longrightarrow>
            finished s = P \<and> pending s = {} \<and> running s = {} \<and> releasing s = {} \<and>
            signalling s = {}) \<and>
         (releasing s \<noteq> {} \<longrightarrow> 0 < semaphore s) \<and>
         (pc s \<noteq> Returned \<longrightarrow> (\<exists>t. step s t)) \<and>
         (\<forall>t. step s t \<longrightarrow> Suc (remaining t) = remaining s) \<and>
         (remaining s = 0 \<longleftrightarrow> pc s = Returned)"
proof -
  have inv: "orch_inv P s" using reachable_orch_inv [OF assms] .
  have pl: "places_inv P s" and cn: "counts_inv s"
    using inv by (simp_all add: orch_inv_def)
  have f: "finite (running s)" "finite (releasing s)" "finite (signalling s)" "finite (pending s)"
    using places_finite [OF assms(1) pl] by simp_all
  have sem: "card (running s) + card (releasing s) \<le> semaphore s"
    "semaphore s \<le> semaphoreCapacity"
    using cn unfolding counts_inv_def by simp_all
  have a: "card (running s) \<le> semaphoreCapacity" using sem by simp
  have r: "releasing s \<noteq> {} \<longrightarrow> 0 < semaphore s"
  proof
    assume "releasing s \<noteq> {}"
    then have "0 < card (releasing s)" using f by (simp add: card_gt_0_iff)
    then show "0 < semaphore s" using sem by simp
  qed
  have m: "\<forall>t. step s t \<longrightarrow> Suc (remaining t) = remaining s"
    using step_remaining [OF assms(1) pl] by blast
  have z1: "pc s = Returned \<longrightarrow> remaining s = 0"
    using returned_all_finished [OF inv] unfolding remaining_def by auto
  have z2: "remaining s = 0 \<longrightarrow> pc s = Returned"
    unfolding remaining_def by (cases "pc s") simp_all
  show ?thesis
    using a sem r m z1 z2 returned_all_finished [OF inv] progress [OF assms(1) inv]
    by blast
qed


lemma reachable_oneRunning: "reachable {''/fund/AAA''} oneRunning"
proof -
  let ?s1 = "\<lparr>pending = {}, pc = Added ''/fund/AAA'', semaphore = 0, wg = 1, running = {},
              releasing = {}, signalling = {}, finished = {}\<rparr>"
  let ?s2 = "\<lparr>pending = {}, pc = Acquired ''/fund/AAA'', semaphore = 1, wg = 1, running = {},
              releasing = {}, signalling = {}, finished = {}\<rparr>"
  have 1: "step (initial {''/fund/AAA''}) ?s1"
    using step.pick [of "initial {''/fund/AAA''}" "''/fund/AAA''"] by (simp add: initial_def)
  have 2: "step ?s1 ?s2"
    using step.acquire [of ?s1 "''/fund/AAA''"] by (simp add: semaphoreCapacity_def)
  have 3: "step ?s2 oneRunning"
    using step.spawn [of ?s2 "''/fund/AAA''"] by (simp add: oneRunning_def)
  have "step\<^sup>*\<^sup>* (initial {''/fund/AAA''}) ?s1" using 1 by (rule r_into_rtranclp)
  then have "step\<^sup>*\<^sup>* (initial {''/fund/AAA''}) ?s2" using 2 by (rule rtranclp.rtrancl_into_rtrancl)
  then have "step\<^sup>*\<^sup>* (initial {''/fund/AAA''}) oneRunning"
    using 3 by (rule rtranclp.rtrancl_into_rtrancl)
  then show ?thesis by (simp add: reachable_def)
qed

lemma reachable_allDone: "reachable {''/fund/AAA''} allDone"
proof -
  let ?s4 = "\<lparr>pending = {}, pc = Waiting, semaphore = 1, wg = 1, running = {''/fund/AAA''},
              releasing = {}, signalling = {}, finished = {}\<rparr>"
  let ?s5 = "\<lparr>pending = {}, pc = Waiting, semaphore = 1, wg = 1, running = {},
              releasing = {''/fund/AAA''}, signalling = {}, finished = {}\<rparr>"
  let ?s6 = "\<lparr>pending = {}, pc = Waiting, semaphore = 0, wg = 1, running = {},
              releasing = {}, signalling = {''/fund/AAA''}, finished = {}\<rparr>"
  let ?s7 = "\<lparr>pending = {}, pc = Waiting, semaphore = 0, wg = 0, running = {},
              releasing = {}, signalling = {}, finished = {''/fund/AAA''}\<rparr>"
  have 4: "step oneRunning ?s4"
    using step.drained [of oneRunning] by (simp add: oneRunning_def)
  have 5: "step ?s4 ?s5"
    using step.complete [of "''/fund/AAA''" ?s4] by simp
  have 6: "step ?s5 ?s6"
    using step.release [of "''/fund/AAA''" ?s5] by simp
  have 7: "step ?s6 ?s7"
    using step.signal [of "''/fund/AAA''" ?s6] by simp
  have 8: "step ?s7 allDone"
    using step.return [of ?s7] by (simp add: allDone_def)
  have "step\<^sup>*\<^sup>* (initial {''/fund/AAA''}) oneRunning"
    using reachable_oneRunning by (simp add: reachable_def)
  then have "step\<^sup>*\<^sup>* (initial {''/fund/AAA''}) ?s4" using 4 by (rule rtranclp.rtrancl_into_rtrancl)
  then have "step\<^sup>*\<^sup>* (initial {''/fund/AAA''}) ?s5" using 5 by (rule rtranclp.rtrancl_into_rtrancl)
  then have "step\<^sup>*\<^sup>* (initial {''/fund/AAA''}) ?s6" using 6 by (rule rtranclp.rtrancl_into_rtrancl)
  then have "step\<^sup>*\<^sup>* (initial {''/fund/AAA''}) ?s7" using 7 by (rule rtranclp.rtrancl_into_rtrancl)
  then have "step\<^sup>*\<^sup>* (initial {''/fund/AAA''}) allDone" using 8 by (rule rtranclp.rtrancl_into_rtrancl)
  then show ?thesis by (simp add: reachable_def)
qed

theorem bounded_fanout_witness:
  "finite {''/fund/AAA''} \<and> reachable {''/fund/AAA''} oneRunning \<and>
   card (running oneRunning) = 1 \<and>
   card (running oneRunning) \<le> semaphoreCapacity \<and>
   pc oneRunning \<noteq> Returned \<and> (\<exists>t. step oneRunning t) \<and>
   reachable {''/fund/AAA''} allDone \<and> pc allDone = Returned \<and>
   finished allDone = {''/fund/AAA''} \<and> remaining allDone = 0"
proof -
  have f: "finite {''/fund/AAA''}" by simp
  have c: "card (running oneRunning) = 1" "pc oneRunning \<noteq> Returned"
    by (simp_all add: oneRunning_def)
  have d: "pc allDone = Returned" by (simp add: allDone_def)
  show ?thesis
    using bounded_fanout [OF f reachable_oneRunning] bounded_fanout [OF f reachable_allDone]
      reachable_oneRunning reachable_allDone c d
    by blast
qed

end
